theory Spec2Isabelle
  imports Main "HOL-Library.Multiset"
begin

section \<open>Data model\<close>

text \<open>
  The types of \<^verbatim>\<open>robot_design/graph.h\<close> as \<^verbatim>\<open>graph_rewrite.cpp\<close> uses them. Indices are
  positions in a vector. A vector is a list; the attribute bundles carry a \<^verbatim>\<open>label_\<close>
  and further attributes the rewriting code never inspects, kept as an opaque payload.
\<close>

type_synonym NodeIndex = nat
type_synonym EdgeIndex = nat

text \<open>
  Modelled from the spec: \<^verbatim>\<open>NodeIndex\<close> is declared in \<^verbatim>\<open>robot_design/graph.h\<close>, which is
  not part of the sources at hand. The translation tables are initialised with \<^verbatim>\<open>-1\<close>, the
  "absent" sentinel; for an unsigned 64-bit index that is the largest index value, which
  is no position of any vector.
\<close>

definition NO_INDEX :: NodeIndex where
  "NO_INDEX = 2 ^ 64 - 1"

record 'n NodeAttributes =
  node_label :: string
  node_other :: 'n

record 'n Node =
  name :: string
  node_attrs :: "'n NodeAttributes"

record 'e EdgeAttributes =
  edge_label :: string
  edge_other :: 'e

record 'e Edge =
  head :: NodeIndex
  tail :: NodeIndex
  edge_attrs :: "'e EdgeAttributes"

record Subgraph =
  subgraph_name :: string
  subgraph_nodes :: "NodeIndex set"
  subgraph_edges :: "EdgeIndex set"

record ('n, 'e) Graph =
  nodes :: "'n Node list"
  edges :: "'e Edge list"
  subgraphs :: "Subgraph list"

record GraphMapping =
  node_mapping :: "NodeIndex list"
  edge_mapping :: "EdgeIndex list list"

record ('n, 'e) Rule =
  lhs :: "('n, 'e) Graph"
  rhs :: "('n, 'e) Graph"
  common :: "('n, 'e) Graph"
  common_to_lhs :: GraphMapping
  common_to_rhs :: GraphMapping

text \<open>
  Failures are values: a \<^verbatim>\<open>std::runtime_error\<close> with its message, a failed \<^verbatim>\<open>assert\<close>, and a
  vector read outside its bounds (undefined behaviour in C++, an error here).
\<close>

datatype error = RuntimeError string | AssertionFailed | OutOfRange

text \<open>
  Sequencing of fallible steps: the first failure ends the computation, as a C++ exception
  (or undefined behaviour) does.
\<close>

definition bind_err :: "error + 'a \<Rightarrow> ('a \<Rightarrow> error + 'b) \<Rightarrow> error + 'b" where
  "bind_err r f = (case r of Inl e \<Rightarrow> Inl e | Inr x \<Rightarrow> f x)"

text \<open>A \<^verbatim>\<open>for\<close> loop over a range whose body may fail.\<close>

fun fold_err :: "('a \<Rightarrow> 's \<Rightarrow> error + 's) \<Rightarrow> 'a list \<Rightarrow> 's \<Rightarrow> error + 's" where
  "fold_err f [] s = Inr s"
| "fold_err f (x # xs) s = bind_err (f x s) (fold_err f xs)"

section \<open>findMatches\<close>

text \<open>
  The loop over \<^verbatim>\<open>pattern.edges_\<close> that sets \<^verbatim>\<open>edge_fail\<close>: \<open>nm\<close> is the node mapping of
  the partial match on top of the stack, \<open>i\<close> its last pattern node and \<open>j\<close> the target node
  tried for it. The loop stops at the first edge that has no counterpart.
\<close>

fun edge_fail :: "'e Edge list \<Rightarrow> ('n, 'e) Graph \<Rightarrow> NodeIndex list \<Rightarrow> NodeIndex \<Rightarrow> NodeIndex \<Rightarrow> bool" where
  "edge_fail [] target nm i j = False"
| "edge_fail (pattern_edge # rest) target nm i j =
     (if head pattern_edge = i \<and> tail pattern_edge \<le> i then
        (if \<not> list_ex (\<lambda>target_edge. head target_edge = j \<and>
                                      tail target_edge = nm ! tail pattern_edge) (edges target)
         then True
         else edge_fail rest target nm i j)
      else if tail pattern_edge = i \<and> head pattern_edge \<le> i then
        (if \<not> list_ex (\<lambda>target_edge. tail target_edge = j \<and>
                                      head target_edge = nm ! head pattern_edge) (edges target)
         then True
         else edge_fail rest target nm i j)
      else edge_fail rest target nm i j)"

text \<open>
  Filling in the edge matches of a complete node matching: for every pattern edge, the
  indices of all target edges between the mapped endpoints, in target order. Reading
  \<^verbatim>\<open>node_mapping_\<close> at an endpoint that is no pattern node is out of range.
\<close>

definition fill_edge_matches ::
  "('n, 'e) Graph \<Rightarrow> ('n, 'e) Graph \<Rightarrow> GraphMapping \<Rightarrow> error + GraphMapping" where
  "fill_edge_matches pattern target pm =
     (if list_all (\<lambda>pattern_edge. head pattern_edge < length (node_mapping pm) \<and>
                                  tail pattern_edge < length (node_mapping pm)) (edges pattern)
      then Inr (pm\<lparr>edge_mapping :=
        map (\<lambda>pattern_edge.
              filter (\<lambda>n. head (edges target ! n) = node_mapping pm ! head pattern_edge \<and>
                           tail (edges target ! n) = node_mapping pm ! tail pattern_edge)
                     [0..<length (edges target)])
            (edges pattern)\<rparr>)
      else Inl OutOfRange)"

text \<open>\<^verbatim>\<open>++pm.node_mapping_.back()\<close>\<close>

definition incr_back :: "GraphMapping \<Rightarrow> GraphMapping" where
  "incr_back pm = pm\<lparr>node_mapping := butlast (node_mapping pm) @ [last (node_mapping pm) + 1]\<rparr>"

text \<open>
  One iteration of the \<^verbatim>\<open>while\<close> loop. The state is the stack \<^verbatim>\<open>partial_matches\<close> (its
  top is the head of the list) and the matches found so far.
\<close>

fun findMatches_step ::
  "('n, 'e) Graph \<Rightarrow> ('n, 'e) Graph \<Rightarrow> GraphMapping list \<times> GraphMapping list \<Rightarrow>
     error + GraphMapping list \<times> GraphMapping list" where
  "findMatches_step pattern target ([], matches) = Inl OutOfRange"
| "findMatches_step pattern target (pm # rest, matches) =
     (if node_mapping pm = [] then Inl OutOfRange
      else
        let i = length (node_mapping pm) - 1;
            j = last (node_mapping pm)
        in
          if j \<ge> length (nodes target) then
            (case rest of
               [] \<Rightarrow> Inr ([], matches)
             | parent_pm # rest' \<Rightarrow>
                 if node_mapping parent_pm = [] then Inl OutOfRange
                 else Inr (incr_back parent_pm # rest', matches))
          else if i \<ge> length (nodes pattern) then Inl OutOfRange
          else if node_label (node_attrs (nodes pattern ! i)) \<noteq> [] \<and>
                  node_label (node_attrs (nodes pattern ! i)) \<noteq>
                    node_label (node_attrs (nodes target ! j)) then
            Inr (incr_back pm # rest, matches)
          else if edge_fail (edges pattern) target (node_mapping pm) i j then
            Inr (incr_back pm # rest, matches)
          else if length (node_mapping pm) = length (nodes pattern) then
            (case fill_edge_matches pattern target pm of
               Inl e \<Rightarrow> Inl e
             | Inr new_match \<Rightarrow> Inr (incr_back pm # rest, matches @ [new_match]))
          else
            Inr (pm\<lparr>node_mapping := node_mapping pm @ [0]\<rparr> # pm # rest, matches))"

text \<open>
  The loop itself. It is not known in advance to terminate, so its result is an option:
  \<open>None\<close> stands for a loop that never ends, \<open>Some (Inl e)\<close> for a failure and
  \<open>Some (Inr matches)\<close> for the returned vector.
\<close>

partial_function (option) findMatches_loop ::
  "('n, 'e) Graph \<Rightarrow> ('n, 'e) Graph \<Rightarrow> GraphMapping list \<times> GraphMapping list \<Rightarrow>
     (error + GraphMapping list) option" where
  "findMatches_loop pattern target s =
     (if fst s = [] then Some (Inr (snd s))
      else (case findMatches_step pattern target s of
              Inl e \<Rightarrow> Some (Inl e)
            | Inr s' \<Rightarrow> findMatches_loop pattern target s'))"

declare findMatches_loop.simps [code]

definition findMatches ::
  "('n, 'e) Graph \<Rightarrow> ('n, 'e) Graph \<Rightarrow> (error + GraphMapping list) option" where
  "findMatches pattern target =
     (if length (nodes pattern) \<ge> 1
      then findMatches_loop pattern target ([\<lparr>node_mapping = [0], edge_mapping = []\<rparr>], [])
      else Some (Inl AssertionFailed))"

text \<open>
  The first \<open>k\<close> iterations of the loop (fewer when the stack runs empty before), as a
  function of the state at loop entry.
\<close>

fun findMatches_run ::
  "nat \<Rightarrow> ('n, 'e) Graph \<Rightarrow> ('n, 'e) Graph \<Rightarrow> GraphMapping list \<times> GraphMapping list \<Rightarrow>
     error + GraphMapping list \<times> GraphMapping list" where
  "findMatches_run 0 pattern target s = Inr s"
| "findMatches_run (Suc k) pattern target s =
     (if fst s = [] then Inr s
      else bind_err (findMatches_step pattern target s) (findMatches_run k pattern target))"

section \<open>createRuleFromGraph\<close>

text \<open>
  The local variables of \<^verbatim>\<open>createRuleFromGraph\<close>: the rule under construction, the three
  tables from graph node indices to LHS, RHS and common node indices, and the two hash maps
  from edge labels to LHS and RHS edge indices. A hash map is kept as the list of its
  entries in insertion order; its keys are distinct.
\<close>

record ('n, 'e) compile_state =
  rule :: "('n, 'e) Rule"
  graph_to_lhs_node :: "NodeIndex list"
  graph_to_rhs_node :: "NodeIndex list"
  graph_to_common_node :: "NodeIndex list"
  lhs_label_to_edge :: "(string \<times> EdgeIndex) list"
  rhs_label_to_edge :: "(string \<times> EdgeIndex) list"

definition empty_graph :: "('n, 'e) Graph" where
  "empty_graph = \<lparr>nodes = [], edges = [], subgraphs = []\<rparr>"

definition empty_mapping :: GraphMapping where
  "empty_mapping = \<lparr>node_mapping = [], edge_mapping = []\<rparr>"

definition empty_rule :: "('n, 'e) Rule" where
  "empty_rule = \<lparr>lhs = empty_graph, rhs = empty_graph, common = empty_graph,
                  common_to_lhs = empty_mapping, common_to_rhs = empty_mapping\<rparr>"

definition quoted :: "string \<Rightarrow> string" where
  "quoted s = [CHR 0x22] @ s @ [CHR 0x22]"

definition msg_missing_subgraphs :: string where
  "msg_missing_subgraphs =
     ''Graph must contain subgraphs named '' @ quoted ''L'' @ '' and '' @ quoted ''R''"

definition msg_node_in_neither :: "string \<Rightarrow> string" where
  "msg_node_in_neither node_name =
     ''Node '' @ quoted node_name @ '' is in neither the LHS nor the RHS''"

definition msg_label_twice_lhs :: "string \<Rightarrow> string" where
  "msg_label_twice_lhs label =
     ''Edge label '' @ quoted label @ '' is used more than once in the LHS''"

definition msg_label_twice_rhs :: "string \<Rightarrow> string" where
  "msg_label_twice_rhs label =
     ''Edge label '' @ quoted label @ '' is used more than once in the RHS''"

definition msg_edge_in_both :: string where
  "msg_edge_in_both =
     ''Edge is in both the '' @ quoted ''L'' @ '' and '' @ quoted ''R'' @
     '' subgraphs, use separate edges with the same label instead''"

definition msg_edge_in_neither :: string where
  "msg_edge_in_neither = ''Edge is in neither the LHS nor the RHS''"

text \<open>The body of the loop over \<^verbatim>\<open>graph.nodes_\<close>.\<close>

definition copy_node ::
  "('n, 'e) Graph \<Rightarrow> Subgraph \<Rightarrow> Subgraph \<Rightarrow> NodeIndex \<Rightarrow>
     ('n, 'e) compile_state \<Rightarrow> error + ('n, 'e) compile_state" where
  "copy_node graph lhs_subgraph rhs_subgraph i st =
     (let node = nodes graph ! i;
          node_in_lhs = (i \<in> subgraph_nodes lhs_subgraph);
          node_in_rhs = (i \<in> subgraph_nodes rhs_subgraph);
          st1 = (if node_in_lhs then
                   st\<lparr>rule := (rule st)\<lparr>lhs := (lhs (rule st))\<lparr>nodes := nodes (lhs (rule st)) @ [node]\<rparr>\<rparr>,
                      graph_to_lhs_node :=
                        (graph_to_lhs_node st)[i := length (nodes (lhs (rule st)) @ [node]) - 1]\<rparr>
                 else st);
          st2 = (if node_in_rhs then
                   st1\<lparr>rule := (rule st1)\<lparr>rhs := (rhs (rule st1))\<lparr>nodes := nodes (rhs (rule st1)) @ [node]\<rparr>\<rparr>,
                       graph_to_rhs_node :=
                         (graph_to_rhs_node st1)[i := length (nodes (rhs (rule st1)) @ [node]) - 1]\<rparr>
                 else st1);
          st3 = (if node_in_lhs \<and> node_in_rhs then
                   st2\<lparr>rule := (rule st2)
                         \<lparr>common := (common (rule st2))\<lparr>nodes := nodes (common (rule st2)) @ [node]\<rparr>,
                          common_to_lhs := (common_to_lhs (rule st2))
                            \<lparr>node_mapping := node_mapping (common_to_lhs (rule st2)) @
                                              [length (nodes (lhs (rule st2))) - 1]\<rparr>,
                          common_to_rhs := (common_to_rhs (rule st2))
                            \<lparr>node_mapping := node_mapping (common_to_rhs (rule st2)) @
                                              [length (nodes (rhs (rule st2))) - 1]\<rparr>\<rparr>,
                       graph_to_common_node :=
                         (graph_to_common_node st2)[i := length (nodes (common (rule st2)) @ [node]) - 1]\<rparr>
                 else st2)
      in if \<not> node_in_lhs \<and> \<not> node_in_rhs
         then Inl (RuntimeError (msg_node_in_neither (name node)))
         else Inr st3)"

text \<open>
  Copying an edge into the LHS: the endpoints are rewritten through \<^verbatim>\<open>graph_to_lhs_node\<close>
  (a read outside the table is out of range), and a non-empty label is entered into
  \<^verbatim>\<open>lhs_label_to_edge\<close>; \<^verbatim>\<open>emplace\<close> fails when the label is already a key.
\<close>

definition copy_edge_lhs ::
  "'e Edge \<Rightarrow> ('n, 'e) compile_state \<Rightarrow> error + ('n, 'e) compile_state" where
  "copy_edge_lhs edge st =
     (if head edge < length (graph_to_lhs_node st) \<and> tail edge < length (graph_to_lhs_node st) then
        let lhs_edge = edge\<lparr>head := graph_to_lhs_node st ! head edge,
                            tail := graph_to_lhs_node st ! tail edge\<rparr>;
            st' = st\<lparr>rule := (rule st)\<lparr>lhs := (lhs (rule st))\<lparr>edges := edges (lhs (rule st)) @ [lhs_edge]\<rparr>\<rparr>\<rparr>;
            label = edge_label (edge_attrs edge)
        in if label \<noteq> [] then
             (if map_of (lhs_label_to_edge st') label \<noteq> None
              then Inl (RuntimeError (msg_label_twice_lhs label))
              else Inr (st'\<lparr>lhs_label_to_edge :=
                          lhs_label_to_edge st' @ [(label, length (edges (lhs (rule st'))) - 1)]\<rparr>))
           else Inr st'
      else Inl OutOfRange)"

definition copy_edge_rhs ::
  "'e Edge \<Rightarrow> ('n, 'e) compile_state \<Rightarrow> error + ('n, 'e) compile_state" where
  "copy_edge_rhs edge st =
     (if head edge < length (graph_to_rhs_node st) \<and> tail edge < length (graph_to_rhs_node st) then
        let rhs_edge = edge\<lparr>head := graph_to_rhs_node st ! head edge,
                            tail := graph_to_rhs_node st ! tail edge\<rparr>;
            st' = st\<lparr>rule := (rule st)\<lparr>rhs := (rhs (rule st))\<lparr>edges := edges (rhs (rule st)) @ [rhs_edge]\<rparr>\<rparr>\<rparr>;
            label = edge_label (edge_attrs edge)
        in if label \<noteq> [] then
             (if map_of (rhs_label_to_edge st') label \<noteq> None
              then Inl (RuntimeError (msg_label_twice_rhs label))
              else Inr (st'\<lparr>rhs_label_to_edge :=
                          rhs_label_to_edge st' @ [(label, length (edges (rhs (rule st'))) - 1)]\<rparr>))
           else Inr st'
      else Inl OutOfRange)"

text \<open>The body of the loop over \<^verbatim>\<open>graph.edges_\<close>.\<close>

definition copy_edge ::
  "('n, 'e) Graph \<Rightarrow> Subgraph \<Rightarrow> Subgraph \<Rightarrow> EdgeIndex \<Rightarrow>
     ('n, 'e) compile_state \<Rightarrow> error + ('n, 'e) compile_state" where
  "copy_edge graph lhs_subgraph rhs_subgraph m st =
     (let edge = edges graph ! m;
          edge_in_lhs = (m \<in> subgraph_edges lhs_subgraph);
          edge_in_rhs = (m \<in> subgraph_edges rhs_subgraph)
      in bind_err (if edge_in_lhs then copy_edge_lhs edge st else Inr st) (\<lambda>st1.
         bind_err (if edge_in_rhs then copy_edge_rhs edge st1 else Inr st1) (\<lambda>st2.
         if edge_in_lhs \<and> edge_in_rhs then Inl (RuntimeError msg_edge_in_both)
         else if \<not> edge_in_lhs \<and> \<not> edge_in_rhs then Inl (RuntimeError msg_edge_in_neither)
         else Inr st2)))"

text \<open>
  The body of the loop over the entries of \<^verbatim>\<open>lhs_label_to_edge\<close>: a label that is also a
  key of \<^verbatim>\<open>rhs_label_to_edge\<close> gives a common edge with endpoints 0, default attributes and
  that label, paired with the LHS edge and the RHS edge of the label.
\<close>

definition add_common_edge ::
  "(string \<times> EdgeIndex) list \<Rightarrow> string \<times> EdgeIndex \<Rightarrow> ('n, 'e::default) Rule \<Rightarrow> ('n, 'e) Rule" where
  "add_common_edge rhs_map elem_lhs r =
     (let label = fst elem_lhs; m_lhs = snd elem_lhs in
      case map_of rhs_map label of
        None \<Rightarrow> r
      | Some m_rhs \<Rightarrow>
          r\<lparr>common := (common r)\<lparr>edges := edges (common r) @
                 [\<lparr>head = 0, tail = 0, edge_attrs = \<lparr>edge_label = label, edge_other = default\<rparr>\<rparr>]\<rparr>,
            common_to_lhs := (common_to_lhs r)
                 \<lparr>edge_mapping := edge_mapping (common_to_lhs r) @ [[m_lhs]]\<rparr>,
            common_to_rhs := (common_to_rhs r)
                 \<lparr>edge_mapping := edge_mapping (common_to_rhs r) @ [[m_rhs]]\<rparr>\<rparr>)"

text \<open>
  \<^verbatim>\<open>createRuleFromGraph\<close>. The order in which a range-for visits the entries of a
  \<^verbatim>\<open>std::unordered_map\<close> is not specified by the language; it is the parameter
  \<open>iteration_order\<close>, which gives the visiting order of a map from its entries in insertion
  order.
\<close>

definition createRuleFromGraph ::
  "((string \<times> EdgeIndex) list \<Rightarrow> (string \<times> EdgeIndex) list) \<Rightarrow>
     ('n, 'e::default) Graph \<Rightarrow> error + ('n, 'e) Rule" where
  "createRuleFromGraph iteration_order graph =
     (case (find (\<lambda>subgraph. subgraph_name subgraph = ''L'') (subgraphs graph),
            find (\<lambda>subgraph. subgraph_name subgraph = ''R'') (subgraphs graph)) of
        (Some lhs_subgraph, Some rhs_subgraph) \<Rightarrow>
          bind_err (fold_err (copy_node graph lhs_subgraph rhs_subgraph) [0..<length (nodes graph)]
                      \<lparr>rule = empty_rule,
                       graph_to_lhs_node = replicate (length (nodes graph)) NO_INDEX,
                       graph_to_rhs_node = replicate (length (nodes graph)) NO_INDEX,
                       graph_to_common_node = replicate (length (nodes graph)) NO_INDEX,
                       lhs_label_to_edge = [],
                       rhs_label_to_edge = []\<rparr>) (\<lambda>st.
          bind_err (fold_err (copy_edge graph lhs_subgraph rhs_subgraph) [0..<length (edges graph)] st) (\<lambda>st.
          Inr (fold (add_common_edge (rhs_label_to_edge st))
                    (iteration_order (lhs_label_to_edge st)) (rule st))))
      | _ \<Rightarrow> Inl (RuntimeError msg_missing_subgraphs))"

section \<open>applyRule\<close>

text \<open>
  The local variables of \<^verbatim>\<open>applyRule\<close>: the result graph and the two tables from target
  and RHS node indices to result node indices.
\<close>

record ('n, 'e) apply_state =
  result :: "('n, 'e) Graph"
  target_to_result_node :: "NodeIndex list"
  rhs_to_result_node :: "NodeIndex list"

text \<open>Copy target nodes not in LHS to result.\<close>

definition copy_target_node ::
  "('n, 'e) Graph \<Rightarrow> GraphMapping \<Rightarrow> NodeIndex \<Rightarrow> ('n, 'e) apply_state \<Rightarrow> error + ('n, 'e) apply_state" where
  "copy_target_node target lhs_to_target i st =
     (if i \<notin> set (node_mapping lhs_to_target) then
        Inr (st\<lparr>result := (result st)\<lparr>nodes := nodes (result st) @ [nodes target ! i]\<rparr>,
                target_to_result_node :=
                  (target_to_result_node st)[i := length (nodes (result st) @ [nodes target ! i]) - 1]\<rparr>)
      else Inr st)"

text \<open>Copy target nodes in LHS to result if they are in common with the RHS.\<close>

definition copy_common_node ::
  "('n, 'e) Rule \<Rightarrow> ('n, 'e) Graph \<Rightarrow> GraphMapping \<Rightarrow> NodeIndex \<Rightarrow>
     ('n, 'e) apply_state \<Rightarrow> error + ('n, 'e) apply_state" where
  "copy_common_node r target lhs_to_target i st =
     (if i < length (node_mapping (common_to_lhs r)) then
        let lhs_node = node_mapping (common_to_lhs r) ! i in
        if lhs_node < length (node_mapping lhs_to_target) then
          let target_node = node_mapping lhs_to_target ! lhs_node in
          if target_node < length (nodes target) \<and> target_node < length (target_to_result_node st) then
            Inr (st\<lparr>result := (result st)\<lparr>nodes := nodes (result st) @ [nodes target ! target_node]\<rparr>,
                    target_to_result_node :=
                      (target_to_result_node st)
                        [target_node := length (nodes (result st) @ [nodes target ! target_node]) - 1]\<rparr>)
          else Inl OutOfRange
        else Inl OutOfRange
      else Inl OutOfRange)"

text \<open>Add RHS nodes which are not in common with the LHS.\<close>

definition add_rhs_node ::
  "('n, 'e) Rule \<Rightarrow> NodeIndex \<Rightarrow> ('n, 'e) apply_state \<Rightarrow> error + ('n, 'e) apply_state" where
  "add_rhs_node r i st =
     (if i \<notin> set (node_mapping (common_to_rhs r)) then
        Inr (st\<lparr>result := (result st)\<lparr>nodes := nodes (result st) @ [nodes (rhs r) ! i]\<rparr>,
                rhs_to_result_node :=
                  (rhs_to_result_node st)[i := length (nodes (result st) @ [nodes (rhs r) ! i]) - 1]\<rparr>)
      else Inr st)"

text \<open>
  Appending an edge to the result with its endpoints sent through a translation table.
  An endpoint that is no index of the table is out of range.
\<close>

definition push_edge ::
  "NodeIndex list \<Rightarrow> 'e Edge \<Rightarrow> ('n, 'e) apply_state \<Rightarrow> error + ('n, 'e) apply_state" where
  "push_edge table edge st =
     (if head edge < length table \<and> tail edge < length table then
        Inr (st\<lparr>result := (result st)\<lparr>edges := edges (result st) @
               [edge\<lparr>head := table ! head edge, tail := table ! tail edge\<rparr>]\<rparr>\<rparr>)
      else Inl OutOfRange)"

text \<open>Copy target edges not in LHS to result.\<close>

definition copy_target_edge ::
  "('n, 'e) Graph \<Rightarrow> GraphMapping \<Rightarrow> EdgeIndex \<Rightarrow> ('n, 'e) apply_state \<Rightarrow> error + ('n, 'e) apply_state" where
  "copy_target_edge target lhs_to_target m st =
     (if m \<notin> set (concat (edge_mapping lhs_to_target))
      then push_edge (target_to_result_node st) (edges target ! m) st
      else Inr st)"

text \<open>Copy target edges in LHS to result if they are in common with the RHS.\<close>

definition copy_common_edge ::
  "('n, 'e) Rule \<Rightarrow> ('n, 'e) Graph \<Rightarrow> GraphMapping \<Rightarrow> EdgeIndex \<Rightarrow>
     ('n, 'e) apply_state \<Rightarrow> error + ('n, 'e) apply_state" where
  "copy_common_edge r target lhs_to_target m st =
     (if m < length (edge_mapping (common_to_lhs r)) \<and> edge_mapping (common_to_lhs r) ! m \<noteq> [] then
        let lhs_edge = edge_mapping (common_to_lhs r) ! m ! 0 in
        if lhs_edge < length (edge_mapping lhs_to_target) then
          fold_err (\<lambda>target_edge st'.
                      if target_edge < length (edges target)
                      then push_edge (target_to_result_node st') (edges target ! target_edge) st'
                      else Inl OutOfRange)
                   (edge_mapping lhs_to_target ! lhs_edge) st
        else Inl OutOfRange
      else Inl OutOfRange)"

text \<open>Add RHS edges which are not in common with the LHS.\<close>

definition add_rhs_edge ::
  "('n, 'e) Rule \<Rightarrow> EdgeIndex \<Rightarrow> ('n, 'e) apply_state \<Rightarrow> error + ('n, 'e) apply_state" where
  "add_rhs_edge r m st =
     (if m \<notin> set (concat (edge_mapping (common_to_rhs r)))
      then push_edge (rhs_to_result_node st) (edges (rhs r) ! m) st
      else Inr st)"

definition applyRule ::
  "('n, 'e) Rule \<Rightarrow> ('n, 'e) Graph \<Rightarrow> GraphMapping \<Rightarrow> error + ('n, 'e) Graph" where
  "applyRule r target lhs_to_target =
     bind_err (fold_err (copy_target_node target lhs_to_target) [0..<length (nodes target)]
                 \<lparr>result = empty_graph,
                  target_to_result_node = replicate (length (nodes target)) NO_INDEX,
                  rhs_to_result_node = replicate (length (nodes (rhs r))) NO_INDEX\<rparr>) (\<lambda>st.
     bind_err (fold_err (copy_common_node r target lhs_to_target) [0..<length (nodes (common r))] st) (\<lambda>st.
     bind_err (fold_err (add_rhs_node r) [0..<length (nodes (rhs r))] st) (\<lambda>st.
     bind_err (fold_err (copy_target_edge target lhs_to_target) [0..<length (edges target)] st) (\<lambda>st.
     bind_err (fold_err (copy_common_edge r target lhs_to_target) [0..<length (edges (common r))] st) (\<lambda>st.
     bind_err (fold_err (add_rhs_edge r) [0..<length (edges (rhs r))] st) (\<lambda>st.
     Inr (result st)))))))"

section \<open>Notions used to state and prove the properties of findMatches\<close>

text \<open>
  What the properties of the matcher speak about: a graph whose edges end at its own nodes,
  an assignment of target nodes to the pattern nodes, the two constraints on it, and the
  lexicographic order of assignments.
\<close>

definition edges_in_range :: "('n, 'e) Graph \<Rightarrow> bool" where
  "edges_in_range g = list_all (\<lambda>e. head e < length (nodes g) \<and> tail e < length (nodes g)) (edges g)"

definition node_assignment :: "('n, 'e) Graph \<Rightarrow> ('n, 'e) Graph \<Rightarrow> NodeIndex list \<Rightarrow> bool" where
  "node_assignment pattern target nm =
     (length nm = length (nodes pattern) \<and> (\<forall>j\<in>set nm. j < length (nodes target)))"

definition label_constraint :: "('n, 'e) Graph \<Rightarrow> ('n, 'e) Graph \<Rightarrow> NodeIndex list \<Rightarrow> bool" where
  "label_constraint pattern target nm =
     (\<forall>i<length (nodes pattern).
        node_label (node_attrs (nodes pattern ! i)) = [] \<or>
        node_label (node_attrs (nodes pattern ! i)) = node_label (node_attrs (nodes target ! (nm ! i))))"

definition edge_constraint :: "('n, 'e) Graph \<Rightarrow> ('n, 'e) Graph \<Rightarrow> NodeIndex list \<Rightarrow> bool" where
  "edge_constraint pattern target nm =
     (\<forall>pe\<in>set (edges pattern). \<exists>te\<in>set (edges target).
        head te = nm ! head pe \<and> tail te = nm ! tail pe)"

definition lex_less :: "nat list \<Rightarrow> nat list \<Rightarrow> bool" where
  "lex_less xs ys = ((xs, ys) \<in> lexord {(a, b). a < b})"

text \<open>
  Devices of the proofs. A partial match on the stack has no edge matches yet (\<open>mk_pm\<close>);
  \<open>frame_ok\<close> is the test the loop body makes for the candidate \<open>j\<close> after the committed
  prefix \<open>pre\<close>; \<open>search\<close> lists, in the order of the depth-first search, the complete node
  mappings below a prefix, \<open>block\<close> those of the candidates from \<open>j\<close> on; \<open>filled\<close> is a node
  mapping with its edge matches; \<open>bump\<close> advances the parent frame after a pop, and \<open>after\<close>
  is the rest of the run once the matches \<open>found\<close> below a frame have been recorded.
\<close>

definition mk_pm :: "NodeIndex list \<Rightarrow> GraphMapping" where
  "mk_pm nm = \<lparr>node_mapping = nm, edge_mapping = []\<rparr>"

definition frame_ok :: "('n, 'e) Graph \<Rightarrow> ('n, 'e) Graph \<Rightarrow> NodeIndex list \<Rightarrow> NodeIndex \<Rightarrow> bool" where
  "frame_ok pattern target pre j =
     (\<not> (node_label (node_attrs (nodes pattern ! length pre)) \<noteq> [] \<and>
         node_label (node_attrs (nodes pattern ! length pre)) \<noteq>
           node_label (node_attrs (nodes target ! j))) \<and>
      \<not> edge_fail (edges pattern) target (pre @ [j]) (length pre) j)"

fun search :: "('n, 'e) Graph \<Rightarrow> ('n, 'e) Graph \<Rightarrow> nat \<Rightarrow> NodeIndex list \<Rightarrow> NodeIndex list list" where
  "search pattern target 0 pre = [pre]"
| "search pattern target (Suc d) pre =
     concat (map (\<lambda>j. if frame_ok pattern target pre j then search pattern target d (pre @ [j]) else [])
                 [0..<length (nodes target)])"

definition block :: "('n, 'e) Graph \<Rightarrow> ('n, 'e) Graph \<Rightarrow> nat \<Rightarrow> NodeIndex list \<Rightarrow> NodeIndex \<Rightarrow> NodeIndex list list" where
  "block pattern target d pre j =
     concat (map (\<lambda>j'. if frame_ok pattern target pre j' then search pattern target d (pre @ [j']) else [])
                 [j..<length (nodes target)])"

definition filled :: "('n, 'e) Graph \<Rightarrow> ('n, 'e) Graph \<Rightarrow> NodeIndex list \<Rightarrow> GraphMapping" where
  "filled pattern target nm =
     \<lparr>node_mapping = nm,
      edge_mapping = map (\<lambda>pattern_edge.
              filter (\<lambda>n. head (edges target ! n) = nm ! head pattern_edge \<and>
                           tail (edges target ! n) = nm ! tail pattern_edge)
                     [0..<length (edges target)])
            (edges pattern)\<rparr>"

definition bump :: "GraphMapping list \<Rightarrow> GraphMapping list" where
  "bump rest = (case rest of [] \<Rightarrow> [] | p # r \<Rightarrow> incr_back p # r)"

definition after :: "('n, 'e) Graph \<Rightarrow> ('n, 'e) Graph \<Rightarrow> GraphMapping list \<Rightarrow> GraphMapping list \<Rightarrow>
    NodeIndex list list \<Rightarrow> (error + GraphMapping list) option" where
  "after pattern target rest ms found =
     (if found = [] \<or> edges_in_range pattern
      then findMatches_loop pattern target (bump rest, ms @ map (filled pattern target) found)
      else Some (Inl OutOfRange))"

text \<open>A pattern edge whose counterpart the edge test at pattern node \<open>i\<close> misses.\<close>

definition edge_unmet :: "('n, 'e) Graph \<Rightarrow> NodeIndex list \<Rightarrow> NodeIndex \<Rightarrow> NodeIndex \<Rightarrow> 'e Edge \<Rightarrow> bool" where
  "edge_unmet target nm i j pe =
       ((head pe = i \<and> tail pe \<le> i \<and>
          \<not> (\<exists>te\<in>set (edges target). head te = j \<and> tail te = nm ! tail pe)) \<or>
       (\<not> (head pe = i \<and> tail pe \<le> i) \<and> tail pe = i \<and> head pe \<le> i \<and>
          \<not> (\<exists>te\<in>set (edges target). tail te = j \<and> head te = nm ! head pe)))"

text \<open>
  The shape of the stack in every state of the loop: the frame at depth \<open>d\<close> maps \<open>d\<close>
  pattern nodes, no entry exceeds the number \<open>n\<close> of target nodes, and the last entry of a
  frame below the top is a target node.
\<close>

fun stack_ok :: "nat \<Rightarrow> GraphMapping list \<Rightarrow> bool" where
  "stack_ok n [] = True"
| "stack_ok n (pm # rest) =
     (length (node_mapping pm) = Suc (length rest) \<and>
      (\<forall>j\<in>set (node_mapping pm). j \<le> n) \<and>
      (\<forall>parent_pm\<in>set rest. last (node_mapping parent_pm) < n) \<and>
      stack_ok n rest)"


section \<open>Notions used to state and prove the properties of the rewriting functions\<close>


subsection \<open>Translation tables\<close>


text \<open>
  Both \<^verbatim>\<open>createRuleFromGraph\<close> and \<^verbatim>\<open>applyRule\<close> fill a table while they append
  elements to a vector: the element copied from source index \<open>i\<close> lands at the next free
  position \<open>q\<close>, and the table entry \<open>i\<close> is set to \<open>q\<close>. \<open>write_table start src table\<close> is
  the table after the source indices \<open>src\<close> were copied, in this order, to the positions from
  \<open>start\<close> on. \<open>translate\<close> sends the endpoints of an edge through a table, and \<open>ends_in n\<close>
  says that both endpoints of an edge are below \<open>n\<close>.
\<close>

definition write_table :: "nat \<Rightarrow> NodeIndex list \<Rightarrow> NodeIndex list \<Rightarrow> NodeIndex list" where
  "write_table start src table = fold (\<lambda>(q, i) t. t[i := q]) (enumerate start src) table"

definition translate :: "NodeIndex list \<Rightarrow> 'e Edge \<Rightarrow> 'e Edge" where
  "translate table e = e\<lparr>head := table ! head e, tail := table ! tail e\<rparr>"

definition ends_in :: "nat \<Rightarrow> 'e Edge \<Rightarrow> bool" where
  "ends_in n e = (head e < n \<and> tail e < n)"


subsection \<open>The rule that createRuleFromGraph builds\<close>


text \<open>
  \<open>members A k\<close> lists the indices below \<open>k\<close> that belong to \<open>A\<close>, in increasing order, and
  \<open>rank A i\<close> counts the indices below \<open>i\<close> that belong to \<open>A\<close>: the position that the
  element with graph index \<open>i\<close> takes in a side graph.
\<close>

definition rank :: "nat set \<Rightarrow> nat \<Rightarrow> nat" where
  "rank A i = length (filter (\<lambda>j. j \<in> A) [0..<i])"

definition members :: "nat set \<Rightarrow> nat \<Rightarrow> nat list" where
  "members A k = filter (\<lambda>j. j \<in> A) [0..<k]"

text \<open>
  The state of \<^verbatim>\<open>createRuleFromGraph\<close> written out (\<open>compile_st\<close>), the state after the
  first \<open>k\<close> rounds of the loop over the nodes (\<open>node_state\<close>) and after the first \<open>k\<close> rounds
  of the loop over the edges (\<open>edge_state\<close>). \<open>label_entries g A k\<close> are the entries of a label
  map after \<open>k\<close> rounds, in insertion order; \<open>side_edges\<close> are the edges copied to one side,
  and \<open>lhs_table g S\<close> is the table from graph node indices to the node indices of the side
  given by the subgraph \<open>S\<close>.
\<close>

definition compile_st ::
  "'n Node list \<Rightarrow> 'e Edge list \<Rightarrow> 'n Node list \<Rightarrow> 'e Edge list \<Rightarrow> 'n Node list \<Rightarrow>
   NodeIndex list \<Rightarrow> NodeIndex list \<Rightarrow> NodeIndex list \<Rightarrow> NodeIndex list \<Rightarrow> NodeIndex list \<Rightarrow>
   (string \<times> EdgeIndex) list \<Rightarrow> (string \<times> EdgeIndex) list \<Rightarrow> ('n, 'e) compile_state" where
  "compile_st ln le rn re cn kln krn g2l g2r g2c lmap rmap =
     \<lparr>rule = \<lparr>lhs = \<lparr>nodes = ln, edges = le, subgraphs = []\<rparr>,
              rhs = \<lparr>nodes = rn, edges = re, subgraphs = []\<rparr>,
              common = \<lparr>nodes = cn, edges = [], subgraphs = []\<rparr>,
              common_to_lhs = \<lparr>node_mapping = kln, edge_mapping = []\<rparr>,
              common_to_rhs = \<lparr>node_mapping = krn, edge_mapping = []\<rparr>\<rparr>,
      graph_to_lhs_node = g2l, graph_to_rhs_node = g2r, graph_to_common_node = g2c,
      lhs_label_to_edge = lmap, rhs_label_to_edge = rmap\<rparr>"

definition node_state :: "('n, 'e) Graph \<Rightarrow> Subgraph \<Rightarrow> Subgraph \<Rightarrow> nat \<Rightarrow> ('n, 'e) compile_state" where
  "node_state g Ls Rs k =
     compile_st (map (\<lambda>i. nodes g ! i) (members (subgraph_nodes Ls) k)) []
                (map (\<lambda>i. nodes g ! i) (members (subgraph_nodes Rs) k)) []
                (map (\<lambda>i. nodes g ! i) (members (subgraph_nodes Ls \<inter> subgraph_nodes Rs) k))
                (map (rank (subgraph_nodes Ls)) (members (subgraph_nodes Ls \<inter> subgraph_nodes Rs) k))
                (map (rank (subgraph_nodes Rs)) (members (subgraph_nodes Ls \<inter> subgraph_nodes Rs) k))
                (write_table 0 (members (subgraph_nodes Ls) k) (replicate (length (nodes g)) NO_INDEX))
                (write_table 0 (members (subgraph_nodes Rs) k) (replicate (length (nodes g)) NO_INDEX))
                (write_table 0 (members (subgraph_nodes Ls \<inter> subgraph_nodes Rs) k)
                   (replicate (length (nodes g)) NO_INDEX))
                [] []"

definition label_of :: "('n, 'e) Graph \<Rightarrow> EdgeIndex \<Rightarrow> string" where
  "label_of g i = edge_label (edge_attrs (edges g ! i))"

definition label_entries :: "('n, 'e) Graph \<Rightarrow> nat set \<Rightarrow> nat \<Rightarrow> (string \<times> EdgeIndex) list" where
  "label_entries g A k =
     map (\<lambda>i. (label_of g i, rank A i)) (filter (\<lambda>i. i \<in> A \<and> label_of g i \<noteq> []) [0..<k])"

definition side_edges :: "('n, 'e) Graph \<Rightarrow> nat set \<Rightarrow> NodeIndex list \<Rightarrow> nat \<Rightarrow> 'e Edge list" where
  "side_edges g A table k = map (\<lambda>i. translate table (edges g ! i)) (members A k)"

definition lhs_table :: "('n, 'e) Graph \<Rightarrow> Subgraph \<Rightarrow> NodeIndex list" where
  "lhs_table g Ls = write_table 0 (members (subgraph_nodes Ls) (length (nodes g)))
                      (replicate (length (nodes g)) NO_INDEX)"

definition edge_state :: "('n, 'e) Graph \<Rightarrow> Subgraph \<Rightarrow> Subgraph \<Rightarrow> nat \<Rightarrow> ('n, 'e) compile_state" where
  "edge_state g Ls Rs k =
     compile_st (map (\<lambda>i. nodes g ! i) (members (subgraph_nodes Ls) (length (nodes g))))
                (side_edges g (subgraph_edges Ls) (lhs_table g Ls) k)
                (map (\<lambda>i. nodes g ! i) (members (subgraph_nodes Rs) (length (nodes g))))
                (side_edges g (subgraph_edges Rs) (lhs_table g Rs) k)
                (map (\<lambda>i. nodes g ! i) (members (subgraph_nodes Ls \<inter> subgraph_nodes Rs) (length (nodes g))))
                (map (rank (subgraph_nodes Ls)) (members (subgraph_nodes Ls \<inter> subgraph_nodes Rs) (length (nodes g))))
                (map (rank (subgraph_nodes Rs)) (members (subgraph_nodes Ls \<inter> subgraph_nodes Rs) (length (nodes g))))
                (lhs_table g Ls)
                (lhs_table g Rs)
                (write_table 0 (members (subgraph_nodes Ls \<inter> subgraph_nodes Rs) (length (nodes g)))
                   (replicate (length (nodes g)) NO_INDEX))
                (label_entries g (subgraph_edges Ls) k)
                (label_entries g (subgraph_edges Rs) k)"

text \<open>
  The round for edge \<open>k\<close> succeeds when \<open>edge_ok\<close> holds, and fails with \<open>edge_err\<close>
  otherwise: the checks in the order in which the loop body makes them. \<open>dup_before g A k\<close>
  says that the non-empty label of edge \<open>k\<close> of side \<open>A\<close> is the label of an earlier edge of
  that side.
\<close>

definition dup_before :: "('n, 'e) Graph \<Rightarrow> nat set \<Rightarrow> nat \<Rightarrow> bool" where
  "dup_before g A k = (label_of g k \<noteq> [] \<and> k \<in> A \<and> (\<exists>i<k. i \<in> A \<and> label_of g i = label_of g k))"

definition edge_ok :: "('n, 'e) Graph \<Rightarrow> Subgraph \<Rightarrow> Subgraph \<Rightarrow> nat \<Rightarrow> bool" where
  "edge_ok g Ls Rs k =
     ((k \<in> subgraph_edges Ls) \<noteq> (k \<in> subgraph_edges Rs) \<and>
      ends_in (length (nodes g)) (edges g ! k) \<and>
      \<not> dup_before g (subgraph_edges Ls) k \<and> \<not> dup_before g (subgraph_edges Rs) k)"

definition edge_err :: "('n, 'e) Graph \<Rightarrow> Subgraph \<Rightarrow> Subgraph \<Rightarrow> nat \<Rightarrow> error" where
  "edge_err g Ls Rs k =
     (if k \<in> subgraph_edges Ls \<and> \<not> ends_in (length (nodes g)) (edges g ! k) then OutOfRange
      else if dup_before g (subgraph_edges Ls) k then RuntimeError (msg_label_twice_lhs (label_of g k))
      else if k \<in> subgraph_edges Rs \<and> \<not> ends_in (length (nodes g)) (edges g ! k) then OutOfRange
      else if dup_before g (subgraph_edges Rs) k then RuntimeError (msg_label_twice_rhs (label_of g k))
      else if k \<in> subgraph_edges Ls \<and> k \<in> subgraph_edges Rs then RuntimeError msg_edge_in_both
      else RuntimeError msg_edge_in_neither)"

text \<open>
  The common edges: one for every entry of the LHS label map, in the order in which the
  map is visited, whose label is a key of the RHS label map (\<open>shared_labels\<close>), and the rule
  that is returned when no check fails (\<open>compiled_rule\<close>).
\<close>

fun shared_labels :: "(string \<times> EdgeIndex) list \<Rightarrow> (string \<times> EdgeIndex) list \<Rightarrow>
    (string \<times> EdgeIndex \<times> EdgeIndex) list" where
  "shared_labels rm [] = []"
| "shared_labels rm ((l, ml) # es) =
     (case map_of rm l of None \<Rightarrow> shared_labels rm es
      | Some mr \<Rightarrow> (l, ml, mr) # shared_labels rm es)"

definition common_edge :: "string \<Rightarrow> ('e::default) Edge" where
  "common_edge l = \<lparr>head = 0, tail = 0, edge_attrs = \<lparr>edge_label = l, edge_other = default\<rparr>\<rparr>"

definition compiled_rule ::
  "((string \<times> EdgeIndex) list \<Rightarrow> (string \<times> EdgeIndex) list) \<Rightarrow> ('n, 'e::default) Graph \<Rightarrow>
     Subgraph \<Rightarrow> Subgraph \<Rightarrow> ('n, 'e) Rule" where
  "compiled_rule ord g Ls Rs =
     (let sh = shared_labels (label_entries g (subgraph_edges Rs) (length (edges g)))
                 (ord (label_entries g (subgraph_edges Ls) (length (edges g))))
      in \<lparr>lhs = \<lparr>nodes = map (\<lambda>i. nodes g ! i) (members (subgraph_nodes Ls) (length (nodes g))),
                  edges = side_edges g (subgraph_edges Ls) (lhs_table g Ls) (length (edges g)),
                  subgraphs = []\<rparr>,
          rhs = \<lparr>nodes = map (\<lambda>i. nodes g ! i) (members (subgraph_nodes Rs) (length (nodes g))),
                  edges = side_edges g (subgraph_edges Rs) (lhs_table g Rs) (length (edges g)),
                  subgraphs = []\<rparr>,
          common = \<lparr>nodes = map (\<lambda>i. nodes g ! i)
                               (members (subgraph_nodes Ls \<inter> subgraph_nodes Rs) (length (nodes g))),
                     edges = map (\<lambda>(l, ml, mr). common_edge l) sh,
                     subgraphs = []\<rparr>,
          common_to_lhs = \<lparr>node_mapping = map (rank (subgraph_nodes Ls))
                               (members (subgraph_nodes Ls \<inter> subgraph_nodes Rs) (length (nodes g))),
                            edge_mapping = map (\<lambda>(l, ml, mr). [ml]) sh\<rparr>,
          common_to_rhs = \<lparr>node_mapping = map (rank (subgraph_nodes Rs))
                               (members (subgraph_nodes Ls \<inter> subgraph_nodes Rs) (length (nodes g))),
                            edge_mapping = map (\<lambda>(l, ml, mr). [mr]) sh\<rparr>\<rparr>)"

text \<open>
  The preconditions of the specification. The subgraphs named "L" and "R" are the first
  of that name. A precondition is violated when a subgraph is missing, a node or an edge is
  in neither subgraph, an edge is in both, or a non-empty edge label is used twice on one
  side. \<open>names_offender g msg\<close> says that \<open>msg\<close> is the message for one of the violations
  of \<open>g\<close>, with the name of the node or the label where the message has one.
\<close>

definition lhs_subgraph_of :: "('n, 'e) Graph \<Rightarrow> Subgraph option" where
  "lhs_subgraph_of g = find (\<lambda>s. subgraph_name s = ''L'') (subgraphs g)"

definition rhs_subgraph_of :: "('n, 'e) Graph \<Rightarrow> Subgraph option" where
  "rhs_subgraph_of g = find (\<lambda>s. subgraph_name s = ''R'') (subgraphs g)"

definition label_reused :: "('n, 'e) Graph \<Rightarrow> nat set \<Rightarrow> bool" where
  "label_reused g A =
     (\<exists>i k. i < k \<and> k < length (edges g) \<and> i \<in> A \<and> k \<in> A \<and>
            label_of g k \<noteq> [] \<and> label_of g i = label_of g k)"

definition precondition_violated :: "('n, 'e) Graph \<Rightarrow> bool" where
  "precondition_violated g =
     (case (lhs_subgraph_of g, rhs_subgraph_of g) of
        (Some Ls, Some Rs) \<Rightarrow>
          (\<exists>i<length (nodes g). i \<notin> subgraph_nodes Ls \<and> i \<notin> subgraph_nodes Rs) \<or>
          (\<exists>k<length (edges g). k \<notin> subgraph_edges Ls \<and> k \<notin> subgraph_edges Rs) \<or>
          (\<exists>k<length (edges g). k \<in> subgraph_edges Ls \<and> k \<in> subgraph_edges Rs) \<or>
          label_reused g (subgraph_edges Ls) \<or> label_reused g (subgraph_edges Rs)
      | _ \<Rightarrow> True)"

definition names_offender :: "('n, 'e) Graph \<Rightarrow> string \<Rightarrow> bool" where
  "names_offender g msg =
     (case (lhs_subgraph_of g, rhs_subgraph_of g) of
        (Some Ls, Some Rs) \<Rightarrow>
          (\<exists>i<length (nodes g). i \<notin> subgraph_nodes Ls \<and> i \<notin> subgraph_nodes Rs \<and>
              msg = msg_node_in_neither (name (nodes g ! i))) \<or>
          (\<exists>k<length (edges g). k \<notin> subgraph_edges Ls \<and> k \<notin> subgraph_edges Rs \<and>
              msg = msg_edge_in_neither) \<or>
          (\<exists>k<length (edges g). k \<in> subgraph_edges Ls \<and> k \<in> subgraph_edges Rs \<and>
              msg = msg_edge_in_both) \<or>
          (\<exists>i k. i < k \<and> k < length (edges g) \<and> i \<in> subgraph_edges Ls \<and> k \<in> subgraph_edges Ls \<and>
              label_of g k \<noteq> [] \<and> label_of g i = label_of g k \<and>
              msg = msg_label_twice_lhs (label_of g k)) \<or>
          (\<exists>i k. i < k \<and> k < length (edges g) \<and> i \<in> subgraph_edges Rs \<and> k \<in> subgraph_edges Rs \<and>
              label_of g k \<noteq> [] \<and> label_of g i = label_of g k \<and>
              msg = msg_label_twice_rhs (label_of g k))
      | _ \<Rightarrow> msg = msg_missing_subgraphs)"

text \<open>
  The invariant of a rule that \<^verbatim>\<open>applyRule\<close> relies on: the node mapping from the common
  graph to the LHS has one entry per common node, lists pairwise distinct LHS nodes, and
  every common edge is paired with exactly one LHS edge.
\<close>

definition rule_wf :: "('n, 'e) Rule \<Rightarrow> bool" where
  "rule_wf r =
     (length (node_mapping (common_to_lhs r)) = length (nodes (common r)) \<and>
      distinct (node_mapping (common_to_lhs r)) \<and>
      (\<forall>l\<in>set (node_mapping (common_to_lhs r)). l < length (nodes (lhs r))) \<and>
      length (edge_mapping (common_to_lhs r)) = length (edges (common r)) \<and>
      (\<forall>x\<in>set (edge_mapping (common_to_lhs r)). \<exists>l<length (edges (lhs r)). x = [l]))"

text \<open>
  The order of the common edges that the specification claims: the labels shared by both
  sides, in the order of the LHS edges of the graph that carry them, and the same in the
  order of the RHS edges.
\<close>

definition common_labels_lhs_order :: "('n, 'e) Graph \<Rightarrow> string list" where
  "common_labels_lhs_order g =
     (case (lhs_subgraph_of g, rhs_subgraph_of g) of
        (Some Ls, Some Rs) \<Rightarrow>
          filter (\<lambda>l. l \<in> fst ` set (label_entries g (subgraph_edges Rs) (length (edges g))))
                 (map fst (label_entries g (subgraph_edges Ls) (length (edges g))))
      | _ \<Rightarrow> [])"

definition common_labels_rhs_order :: "('n, 'e) Graph \<Rightarrow> string list" where
  "common_labels_rhs_order g =
     (case (lhs_subgraph_of g, rhs_subgraph_of g) of
        (Some Ls, Some Rs) \<Rightarrow>
          filter (\<lambda>l. l \<in> fst ` set (label_entries g (subgraph_edges Ls) (length (edges g))))
                 (map fst (label_entries g (subgraph_edges Rs) (length (edges g))))
      | _ \<Rightarrow> [])"


subsection \<open>The graph that applyRule builds\<close>


text \<open>
  The target nodes that are copied, by their target indices and in the order of the
  result: the nodes outside the image of the match (\<open>context_nodes\<close>), then the image of
  every common node (\<open>kept_node\<close>); together \<open>node_sources\<close>. The RHS nodes that are added
  are \<open>new_rhs_nodes\<close>. Likewise for the edges: \<open>context_edges\<close>, the target edges matched by
  the LHS edge of a common edge (\<open>kept_edges\<close>), and \<open>new_rhs_edges\<close>.
\<close>

definition context_nodes :: "('n, 'e) Graph \<Rightarrow> GraphMapping \<Rightarrow> NodeIndex list" where
  "context_nodes target m = filter (\<lambda>i. i \<notin> set (node_mapping m)) [0..<length (nodes target)]"

definition kept_node :: "('n, 'e) Rule \<Rightarrow> GraphMapping \<Rightarrow> NodeIndex \<Rightarrow> NodeIndex" where
  "kept_node r m k = node_mapping m ! (node_mapping (common_to_lhs r) ! k)"

definition node_sources :: "('n, 'e) Rule \<Rightarrow> ('n, 'e) Graph \<Rightarrow> GraphMapping \<Rightarrow> NodeIndex list" where
  "node_sources r target m =
     context_nodes target m @ map (kept_node r m) [0..<length (nodes (common r))]"

definition new_rhs_nodes :: "('n, 'e) Rule \<Rightarrow> NodeIndex list" where
  "new_rhs_nodes r = filter (\<lambda>i. i \<notin> set (node_mapping (common_to_rhs r))) [0..<length (nodes (rhs r))]"

definition context_edges :: "('n, 'e) Graph \<Rightarrow> GraphMapping \<Rightarrow> EdgeIndex list" where
  "context_edges target m =
     filter (\<lambda>i. i \<notin> set (concat (edge_mapping m))) [0..<length (edges target)]"

definition kept_edges :: "('n, 'e) Rule \<Rightarrow> GraphMapping \<Rightarrow> EdgeIndex \<Rightarrow> EdgeIndex list" where
  "kept_edges r m k = edge_mapping m ! (edge_mapping (common_to_lhs r) ! k ! 0)"

definition new_rhs_edges :: "('n, 'e) Rule \<Rightarrow> EdgeIndex list" where
  "new_rhs_edges r =
     filter (\<lambda>i. i \<notin> set (concat (edge_mapping (common_to_rhs r)))) [0..<length (edges (rhs r))]"

text \<open>
  The two tables when the loops over the nodes are done, and the nodes and edges of the
  result. \<open>apply_in_range\<close> collects the conditions under which no vector is read outside
  its bounds; \<open>apply_st\<close> is the state of \<^verbatim>\<open>applyRule\<close> written out.
\<close>

definition target_table :: "('n, 'e) Rule \<Rightarrow> ('n, 'e) Graph \<Rightarrow> GraphMapping \<Rightarrow> NodeIndex list" where
  "target_table r target m =
     write_table 0 (node_sources r target m) (replicate (length (nodes target)) NO_INDEX)"

definition rhs_table :: "('n, 'e) Rule \<Rightarrow> ('n, 'e) Graph \<Rightarrow> GraphMapping \<Rightarrow> NodeIndex list" where
  "rhs_table r target m =
     write_table (length (node_sources r target m)) (new_rhs_nodes r)
       (replicate (length (nodes (rhs r))) NO_INDEX)"

definition kept_ok :: "('n, 'e) Rule \<Rightarrow> ('n, 'e) Graph \<Rightarrow> GraphMapping \<Rightarrow> NodeIndex \<Rightarrow> bool" where
  "kept_ok r target m k =
     (k < length (node_mapping (common_to_lhs r)) \<and>
      node_mapping (common_to_lhs r) ! k < length (node_mapping m) \<and>
      kept_node r m k < length (nodes target))"

definition kept_edges_ok :: "('n, 'e) Rule \<Rightarrow> ('n, 'e) Graph \<Rightarrow> GraphMapping \<Rightarrow> EdgeIndex \<Rightarrow> bool" where
  "kept_edges_ok r target m k =
     (k < length (edge_mapping (common_to_lhs r)) \<and> edge_mapping (common_to_lhs r) ! k \<noteq> [] \<and>
      edge_mapping (common_to_lhs r) ! k ! 0 < length (edge_mapping m) \<and>
      (\<forall>te\<in>set (kept_edges r m k).
          te < length (edges target) \<and> ends_in (length (nodes target)) (edges target ! te)))"

definition apply_in_range :: "('n, 'e) Rule \<Rightarrow> ('n, 'e) Graph \<Rightarrow> GraphMapping \<Rightarrow> bool" where
  "apply_in_range r target m =
     ((\<forall>k<length (nodes (common r)). kept_ok r target m k) \<and>
      (\<forall>i\<in>set (context_edges target m). ends_in (length (nodes target)) (edges target ! i)) \<and>
      (\<forall>k<length (edges (common r)). kept_edges_ok r target m k) \<and>
      (\<forall>i\<in>set (new_rhs_edges r). ends_in (length (nodes (rhs r))) (edges (rhs r) ! i)))"

definition apply_nodes :: "('n, 'e) Rule \<Rightarrow> ('n, 'e) Graph \<Rightarrow> GraphMapping \<Rightarrow> 'n Node list" where
  "apply_nodes r target m =
     map (\<lambda>i. nodes target ! i) (node_sources r target m) @
     map (\<lambda>i. nodes (rhs r) ! i) (new_rhs_nodes r)"

definition apply_edges :: "('n, 'e) Rule \<Rightarrow> ('n, 'e) Graph \<Rightarrow> GraphMapping \<Rightarrow> 'e Edge list" where
  "apply_edges r target m =
     map (\<lambda>i. translate (target_table r target m) (edges target ! i)) (context_edges target m) @
     concat (map (\<lambda>k. map (\<lambda>i. translate (target_table r target m) (edges target ! i)) (kept_edges r m k))
                 [0..<length (edges (common r))]) @
     map (\<lambda>i. translate (rhs_table r target m) (edges (rhs r) ! i)) (new_rhs_edges r)"

definition apply_st ::
  "'n Node list \<Rightarrow> 'e Edge list \<Rightarrow> NodeIndex list \<Rightarrow> NodeIndex list \<Rightarrow> ('n, 'e) apply_state" where
  "apply_st ns es t2r r2r =
     \<lparr>result = \<lparr>nodes = ns, edges = es, subgraphs = []\<rparr>,
      target_to_result_node = t2r, rhs_to_result_node = r2r\<rparr>"

text \<open>
  The node count that the specification claims: the number of target nodes, minus the
  number of distinct target nodes in the image of the LHS nodes that are not common, plus
  the number of RHS nodes that are not common.
\<close>

definition deleted_image :: "('n, 'e) Rule \<Rightarrow> GraphMapping \<Rightarrow> NodeIndex set" where
  "deleted_image r m =
     set (map (\<lambda>l. node_mapping m ! l)
            (filter (\<lambda>l. l \<notin> set (node_mapping (common_to_lhs r))) [0..<length (nodes (lhs r))]))"

definition claimed_node_count :: "('n, 'e) Rule \<Rightarrow> ('n, 'e) Graph \<Rightarrow> GraphMapping \<Rightarrow> nat" where
  "claimed_node_count r target m =
     length (nodes target) - card (deleted_image r m) + length (new_rhs_nodes r)"

text \<open>
  A target node survives when it is outside the image of the match or is the image of a
  common node. \<open>no_dangling_edge\<close>: every target edge that \<^verbatim>\<open>applyRule\<close> copies has both
  endpoints at surviving nodes. \<open>new_edges_at_new_nodes\<close>: every RHS edge that is added has
  both endpoints at RHS nodes that are added.
\<close>

definition survives :: "('n, 'e) Rule \<Rightarrow> GraphMapping \<Rightarrow> NodeIndex \<Rightarrow> bool" where
  "survives r m v =
     (v \<notin> set (node_mapping m) \<or> v \<in> set (map (kept_node r m) [0..<length (nodes (common r))]))"

definition no_dangling_edge :: "('n, 'e) Rule \<Rightarrow> ('n, 'e) Graph \<Rightarrow> GraphMapping \<Rightarrow> bool" where
  "no_dangling_edge r target m =
     list_all (\<lambda>i. survives r m (head (edges target ! i)) \<and> survives r m (tail (edges target ! i)))
       (context_edges target m @ concat (map (kept_edges r m) [0..<length (edges (common r))]))"

definition new_edges_at_new_nodes :: "('n, 'e) Rule \<Rightarrow> bool" where
  "new_edges_at_new_nodes r =
     list_all (\<lambda>i. head (edges (rhs r) ! i) \<in> set (new_rhs_nodes r) \<and>
                   tail (edges (rhs r) ! i) \<in> set (new_rhs_nodes r))
       (new_rhs_edges r)"

text \<open>
  A rule with L = R = K: every LHS node and every RHS node is the image of a common node
  (the node mapping to the LHS is a permutation of the LHS nodes), every LHS edge is paired
  with exactly one common edge, and every RHS edge is paired with a common edge.
  \<open>relabel p\<close> renames the endpoints of an edge along a map \<open>p\<close> of node indices.
\<close>

definition identity_rule :: "('n, 'e) Rule \<Rightarrow> bool" where
  "identity_rule r =
     (length (node_mapping (common_to_lhs r)) = length (nodes (common r)) \<and>
      mset (node_mapping (common_to_lhs r)) = mset [0..<length (nodes (lhs r))] \<and>
      set [0..<length (nodes (rhs r))] \<subseteq> set (node_mapping (common_to_rhs r)) \<and>
      length (edge_mapping (common_to_lhs r)) = length (edges (common r)) \<and>
      (\<forall>x\<in>set (edge_mapping (common_to_lhs r)). length x = 1) \<and>
      mset (map hd (edge_mapping (common_to_lhs r))) = mset [0..<length (edges (lhs r))] \<and>
      set [0..<length (edges (rhs r))] \<subseteq> set (concat (edge_mapping (common_to_rhs r))))"

definition relabel :: "(NodeIndex \<Rightarrow> NodeIndex) \<Rightarrow> 'e Edge \<Rightarrow> 'e Edge" where
  "relabel p e = e\<lparr>head := p (head e), tail := p (tail e)\<rparr>"

section \<open>Example graphs\<close>

text \<open>Concrete graphs and rules on which the theorems below are instantiated.\<close>

definition mk_node :: "string \<Rightarrow> string \<Rightarrow> nat \<Rightarrow> nat Node" where
  "mk_node n l x = \<lparr>name = n, node_attrs = \<lparr>node_label = l, node_other = x\<rparr>\<rparr>"

definition mk_edge :: "NodeIndex \<Rightarrow> NodeIndex \<Rightarrow> string \<Rightarrow> unit Edge" where
  "mk_edge t h l = \<lparr>head = h, tail = t, edge_attrs = \<lparr>edge_label = l, edge_other = ()\<rparr>\<rparr>"

definition mk_subgraph :: "string \<Rightarrow> NodeIndex set \<Rightarrow> EdgeIndex set \<Rightarrow> Subgraph" where
  "mk_subgraph n ns es = \<lparr>subgraph_name = n, subgraph_nodes = ns, subgraph_edges = es\<rparr>"

text \<open>
  A pattern \<open>a \<rightarrow> _\<close> and a target with nodes \<open>a, a, c\<close>, an edge \<open>0 \<rightarrow> 1\<close>, two parallel
  edges \<open>0 \<rightarrow> 2\<close> and a loop at \<open>1\<close>.
\<close>

definition ex_pattern :: "(nat, unit) Graph" where
  "ex_pattern = \<lparr>nodes = [mk_node ''p0'' ''a'' 0, mk_node ''p1'' '''' 0],
                 edges = [mk_edge 0 1 ''''], subgraphs = []\<rparr>"

definition ex_target :: "(nat, unit) Graph" where
  "ex_target = \<lparr>nodes = [mk_node ''t0'' ''a'' 5, mk_node ''t1'' ''a'' 6, mk_node ''t2'' ''c'' 7],
                edges = [mk_edge 0 1 '''', mk_edge 0 2 '''', mk_edge 0 2 '''', mk_edge 1 1 ''''],
                subgraphs = []\<rparr>"

definition ex_matches :: "GraphMapping list" where
  "ex_matches = [\<lparr>node_mapping = [0, 1], edge_mapping = [[0]]\<rparr>,
                 \<lparr>node_mapping = [0, 2], edge_mapping = [[1, 2]]\<rparr>,
                 \<lparr>node_mapping = [1, 1], edge_mapping = [[3]]\<rparr>]"

text \<open>An annotated graph with two LHS edges that carry the label \<open>e\<close>.\<close>

definition dup_graph :: "(nat, unit) Graph" where
  "dup_graph = \<lparr>nodes = [mk_node ''x'' '''' 0, mk_node ''y'' '''' 0],
                edges = [mk_edge 0 1 ''e'', mk_edge 0 1 ''e''],
                subgraphs = [mk_subgraph ''L'' {0, 1} {0, 1}, mk_subgraph ''R'' {0, 1} {}]\<rparr>"

text \<open>
  An annotated graph with the labels \<open>a\<close>, \<open>b\<close> on its LHS edges 0, 1 and the labels \<open>b\<close>,
  \<open>a\<close> on its RHS edges 2, 3, and the rules compiled from it when the LHS label map is
  visited in insertion order and in reverse insertion order.
\<close>

definition ord_graph :: "(nat, unit) Graph" where
  "ord_graph = \<lparr>nodes = [mk_node ''x'' '''' 0, mk_node ''y'' '''' 0],
                edges = [mk_edge 0 1 ''a'', mk_edge 1 0 ''b'', mk_edge 1 0 ''b'', mk_edge 0 1 ''a''],
                subgraphs = [mk_subgraph ''L'' {0, 1} {0, 1}, mk_subgraph ''R'' {0, 1} {2, 3}]\<rparr>"

definition ord_rule :: "string list \<Rightarrow> EdgeIndex list \<Rightarrow> EdgeIndex list \<Rightarrow> (nat, unit) Rule" where
  "ord_rule ls ml mr =
     \<lparr>lhs = \<lparr>nodes = [mk_node ''x'' '''' 0, mk_node ''y'' '''' 0],
             edges = [mk_edge 0 1 ''a'', mk_edge 1 0 ''b''], subgraphs = []\<rparr>,
      rhs = \<lparr>nodes = [mk_node ''x'' '''' 0, mk_node ''y'' '''' 0],
             edges = [mk_edge 1 0 ''b'', mk_edge 0 1 ''a''], subgraphs = []\<rparr>,
      common = \<lparr>nodes = [mk_node ''x'' '''' 0, mk_node ''y'' '''' 0],
                edges = map (mk_edge 0 0) ls, subgraphs = []\<rparr>,
      common_to_lhs = \<lparr>node_mapping = [0, 1], edge_mapping = map (\<lambda>i. [i]) ml\<rparr>,
      common_to_rhs = \<lparr>node_mapping = [0, 1], edge_mapping = map (\<lambda>i. [i]) mr\<rparr>\<rparr>"

text \<open>
  A rule that deletes the node \<open>d\<close>, keeps the nodes \<open>a\<close>, \<open>b\<close> and the edge \<open>e\<close> between
  them, and adds a node \<open>c\<close> with a loop; a target with two parallel edges from \<open>a\<close> to \<open>b\<close>
  and an edge from a further node \<open>z\<close> to \<open>a\<close>; the match and the rewritten graph.
\<close>

definition rw_graph :: "(nat, unit) Graph" where
  "rw_graph = \<lparr>nodes = [mk_node ''a'' ''a'' 0, mk_node ''b'' ''b'' 0, mk_node ''c'' ''c'' 0,
                        mk_node ''d'' ''d'' 0],
               edges = [mk_edge 0 1 ''e'', mk_edge 0 1 ''e'', mk_edge 2 2 ''''],
               subgraphs = [mk_subgraph ''L'' {0, 1, 3} {0}, mk_subgraph ''R'' {0, 1, 2} {1, 2}]\<rparr>"

definition rw_rule :: "(nat, unit) Rule" where
  "rw_rule =
     \<lparr>lhs = \<lparr>nodes = [mk_node ''a'' ''a'' 0, mk_node ''b'' ''b'' 0, mk_node ''d'' ''d'' 0],
             edges = [mk_edge 0 1 ''e''], subgraphs = []\<rparr>,
      rhs = \<lparr>nodes = [mk_node ''a'' ''a'' 0, mk_node ''b'' ''b'' 0, mk_node ''c'' ''c'' 0],
             edges = [mk_edge 0 1 ''e'', mk_edge 2 2 ''''], subgraphs = []\<rparr>,
      common = \<lparr>nodes = [mk_node ''a'' ''a'' 0, mk_node ''b'' ''b'' 0],
                edges = [mk_edge 0 0 ''e''], subgraphs = []\<rparr>,
      common_to_lhs = \<lparr>node_mapping = [0, 1], edge_mapping = [[0]]\<rparr>,
      common_to_rhs = \<lparr>node_mapping = [0, 1], edge_mapping = [[0]]\<rparr>\<rparr>"

definition rw_target :: "(nat, unit) Graph" where
  "rw_target = \<lparr>nodes = [mk_node ''t0'' ''a'' 5, mk_node ''t1'' ''b'' 6, mk_node ''t2'' ''z'' 7,
                         mk_node ''t3'' ''d'' 8],
                edges = [mk_edge 0 1 ''u'', mk_edge 0 1 ''v'', mk_edge 2 0 ''w''],
                subgraphs = []\<rparr>"

definition rw_match :: GraphMapping where
  "rw_match = \<lparr>node_mapping = [0, 1, 3], edge_mapping = [[0, 1]]\<rparr>"

definition rw_result :: "(nat, unit) Graph" where
  "rw_result = \<lparr>nodes = [mk_node ''t2'' ''z'' 7, mk_node ''t0'' ''a'' 5, mk_node ''t1'' ''b'' 6,
                         mk_node ''c'' ''c'' 0],
                edges = [mk_edge 0 1 ''w'', mk_edge 1 2 ''u'', mk_edge 1 2 ''v'', mk_edge 3 3 ''''],
                subgraphs = []\<rparr>"

text \<open>
  A rule with L = R = K on two nodes joined by an edge \<open>a\<close> one way and an edge \<open>b\<close> back,
  a target, and the two matches.
\<close>

definition id_rule :: "(nat, unit) Rule" where
  "id_rule =
     \<lparr>lhs = \<lparr>nodes = [mk_node ''p'' '''' 0, mk_node ''q'' '''' 0],
             edges = [mk_edge 0 1 ''a'', mk_edge 1 0 ''b''], subgraphs = []\<rparr>,
      rhs = \<lparr>nodes = [mk_node ''p'' '''' 0, mk_node ''q'' '''' 0],
             edges = [mk_edge 0 1 ''a'', mk_edge 1 0 ''b''], subgraphs = []\<rparr>,
      common = \<lparr>nodes = [mk_node ''p'' '''' 0, mk_node ''q'' '''' 0],
                edges = [mk_edge 0 0 ''a'', mk_edge 0 0 ''b''], subgraphs = []\<rparr>,
      common_to_lhs = \<lparr>node_mapping = [0, 1], edge_mapping = [[0], [1]]\<rparr>,
      common_to_rhs = \<lparr>node_mapping = [0, 1], edge_mapping = [[0], [1]]\<rparr>\<rparr>"

definition id_target :: "(nat, unit) Graph" where
  "id_target = \<lparr>nodes = [mk_node ''x'' ''x'' 5, mk_node ''y'' ''y'' 6, mk_node ''z'' ''z'' 7],
                edges = [mk_edge 0 1 ''p'', mk_edge 1 0 ''q'', mk_edge 1 0 ''r'', mk_edge 2 1 ''s''],
                subgraphs = []\<rparr>"

definition id_matches :: "GraphMapping list" where
  "id_matches = [\<lparr>node_mapping = [0, 1], edge_mapping = [[0], [1, 2]]\<rparr>,
                 \<lparr>node_mapping = [1, 0], edge_mapping = [[1, 2], [0]]\<rparr>]"

text \<open>
  The annotated graph of two unlabelled nodes, both in "L" and in "R", its rule, a target
  with a single node, the only match (both pattern nodes on the one target node) and the
  rewritten graph.
\<close>

definition twin_graph :: "(nat, unit) Graph" where
  "twin_graph = \<lparr>nodes = [mk_node ''u'' '''' 0, mk_node ''v'' '''' 0], edges = [],
                 subgraphs = [mk_subgraph ''L'' {0, 1} {}, mk_subgraph ''R'' {0, 1} {}]\<rparr>"

definition twin_rule :: "(nat, unit) Rule" where
  "twin_rule =
     \<lparr>lhs = \<lparr>nodes = [mk_node ''u'' '''' 0, mk_node ''v'' '''' 0], edges = [], subgraphs = []\<rparr>,
      rhs = \<lparr>nodes = [mk_node ''u'' '''' 0, mk_node ''v'' '''' 0], edges = [], subgraphs = []\<rparr>,
      common = \<lparr>nodes = [mk_node ''u'' '''' 0, mk_node ''v'' '''' 0], edges = [], subgraphs = []\<rparr>,
      common_to_lhs = \<lparr>node_mapping = [0, 1], edge_mapping = []\<rparr>,
      common_to_rhs = \<lparr>node_mapping = [0, 1], edge_mapping = []\<rparr>\<rparr>"

definition twin_target :: "(nat, unit) Graph" where
  "twin_target = \<lparr>nodes = [mk_node ''w'' ''w'' 5], edges = [], subgraphs = []\<rparr>"

definition twin_match :: GraphMapping where
  "twin_match = \<lparr>node_mapping = [0, 0], edge_mapping = []\<rparr>"

definition twin_result :: "(nat, unit) Graph" where
  "twin_result = \<lparr>nodes = [mk_node ''w'' ''w'' 5, mk_node ''w'' ''w'' 5], edges = [], subgraphs = []\<rparr>"

text \<open>
  The annotated graph of a single node \<open>a\<close> in "L" only, its rule (which deletes the
  node), a target with an edge from \<open>a\<close> to a second node, the match and the rewritten graph.
\<close>

definition del_graph :: "(nat, unit) Graph" where
  "del_graph = \<lparr>nodes = [mk_node ''a'' ''a'' 0], edges = [],
                subgraphs = [mk_subgraph ''L'' {0} {}, mk_subgraph ''R'' {} {}]\<rparr>"

definition del_rule :: "(nat, unit) Rule" where
  "del_rule =
     \<lparr>lhs = \<lparr>nodes = [mk_node ''a'' ''a'' 0], edges = [], subgraphs = []\<rparr>,
      rhs = \<lparr>nodes = [], edges = [], subgraphs = []\<rparr>,
      common = \<lparr>nodes = [], edges = [], subgraphs = []\<rparr>,
      common_to_lhs = \<lparr>node_mapping = [], edge_mapping = []\<rparr>,
      common_to_rhs = \<lparr>node_mapping = [], edge_mapping = []\<rparr>\<rparr>"

definition del_target :: "(nat, unit) Graph" where
  "del_target = \<lparr>nodes = [mk_node ''t0'' ''a'' 5, mk_node ''t1'' ''b'' 6],
                 edges = [mk_edge 0 1 ''''], subgraphs = []\<rparr>"

definition del_match :: GraphMapping where
  "del_match = \<lparr>node_mapping = [0], edge_mapping = []\<rparr>"

definition del_result :: "(nat, unit) Graph" where
  "del_result = \<lparr>nodes = [mk_node ''t1'' ''b'' 6], edges = [mk_edge NO_INDEX 0 ''''], subgraphs = []\<rparr>"

text \<open>
  The annotated graph that adds an edge between two kept nodes, its rule, a target of two
  nodes, the match and the rewritten graph.
\<close>

definition ins_graph :: "(nat, unit) Graph" where
  "ins_graph = \<lparr>nodes = [mk_node ''x'' ''x'' 0, mk_node ''y'' ''y'' 0], edges = [mk_edge 0 1 ''''],
                subgraphs = [mk_subgraph ''L'' {0, 1} {}, mk_subgraph ''R'' {0, 1} {0}]\<rparr>"

definition ins_rule :: "(nat, unit) Rule" where
  "ins_rule =
     \<lparr>lhs = \<lparr>nodes = [mk_node ''x'' ''x'' 0, mk_node ''y'' ''y'' 0], edges = [], subgraphs = []\<rparr>,
      rhs = \<lparr>nodes = [mk_node ''x'' ''x'' 0, mk_node ''y'' ''y'' 0],
             edges = [mk_edge 0 1 ''''], subgraphs = []\<rparr>,
      common = \<lparr>nodes = [mk_node ''x'' ''x'' 0, mk_node ''y'' ''y'' 0], edges = [], subgraphs = []\<rparr>,
      common_to_lhs = \<lparr>node_mapping = [0, 1], edge_mapping = []\<rparr>,
      common_to_rhs = \<lparr>node_mapping = [0, 1], edge_mapping = []\<rparr>\<rparr>"

definition ins_target :: "(nat, unit) Graph" where
  "ins_target = \<lparr>nodes = [mk_node ''t0'' ''x'' 5, mk_node ''t1'' ''y'' 6], edges = [], subgraphs = []\<rparr>"

definition ins_match :: GraphMapping where
  "ins_match = \<lparr>node_mapping = [0, 1], edge_mapping = []\<rparr>"

definition ins_result :: "(nat, unit) Graph" where
  "ins_result = \<lparr>nodes = [mk_node ''t0'' ''x'' 5, mk_node ''t1'' ''y'' 6],
                 edges = [mk_edge NO_INDEX NO_INDEX ''''], subgraphs = []\<rparr>"

section \<open>Correctness of the search loop of findMatches\<close>

lemma block_done: "length (nodes target) \<le> j \<Longrightarrow> block pattern target d pre j = []"
  by (simp add: block_def)

lemma block_step: "j < length (nodes target) \<Longrightarrow>
  block pattern target d pre j =
    (if frame_ok pattern target pre j then search pattern target d (pre @ [j]) else []) @
    block pattern target d pre (Suc j)"
  by (simp add: block_def upt_conv_Cons)

lemma search_Suc_block: "search pattern target (Suc d) pre = block pattern target d pre 0"
  by (simp add: block_def)

lemma incr_back_mk: "incr_back (mk_pm (pre @ [j])) = mk_pm (pre @ [Suc j])"
  by (simp add: incr_back_def mk_pm_def)

lemma fill_mk: "length nm = length (nodes pattern) \<Longrightarrow>
  fill_edge_matches pattern target (mk_pm nm) =
    (if edges_in_range pattern then Inr (filled pattern target nm) else Inl OutOfRange)"
  by (simp add: fill_edge_matches_def mk_pm_def edges_in_range_def filled_def)

lemma step_pop:
  "length (nodes target) \<le> j \<Longrightarrow> rest = [] \<or> node_mapping (hd rest) \<noteq> [] \<Longrightarrow>
   findMatches_step pattern target (mk_pm (pre @ [j]) # rest, ms) = Inr (bump rest, ms)"
  by (cases rest) (auto simp: mk_pm_def bump_def)

lemma step_reject:
  "j < length (nodes target) \<Longrightarrow> length pre < length (nodes pattern) \<Longrightarrow>
   \<not> frame_ok pattern target pre j \<Longrightarrow>
   findMatches_step pattern target (mk_pm (pre @ [j]) # rest, ms) =
     Inr (mk_pm (pre @ [Suc j]) # rest, ms)"
  by (auto simp: frame_ok_def Let_def incr_back_mk[unfolded mk_pm_def] mk_pm_def)

lemma step_record:
  "j < length (nodes target) \<Longrightarrow> length (nodes pattern) = Suc (length pre) \<Longrightarrow>
   frame_ok pattern target pre j \<Longrightarrow>
   findMatches_step pattern target (mk_pm (pre @ [j]) # rest, ms) =
     (if edges_in_range pattern
      then Inr (mk_pm (pre @ [Suc j]) # rest, ms @ [filled pattern target (pre @ [j])])
      else Inl OutOfRange)"
  using fill_mk[of "pre @ [j]" pattern target]
  by (auto simp: frame_ok_def Let_def incr_back_mk[unfolded mk_pm_def] mk_pm_def)

lemma step_push:
  "j < length (nodes target) \<Longrightarrow> Suc (length pre) < length (nodes pattern) \<Longrightarrow>
   frame_ok pattern target pre j \<Longrightarrow>
   findMatches_step pattern target (mk_pm (pre @ [j]) # rest, ms) =
     Inr (mk_pm ((pre @ [j]) @ [0]) # mk_pm (pre @ [j]) # rest, ms)"
  by (auto simp: frame_ok_def Let_def mk_pm_def)

lemma loop_unfold:
  "findMatches_step pattern target (pm # rest, ms) = Inr s' \<Longrightarrow>
   findMatches_loop pattern target (pm # rest, ms) = findMatches_loop pattern target s'"
  by (subst findMatches_loop.simps) simp

lemma loop_unfold_err:
  "findMatches_step pattern target (pm # rest, ms) = Inl e \<Longrightarrow>
   findMatches_loop pattern target (pm # rest, ms) = Some (Inl e)"
  by (subst findMatches_loop.simps) simp

lemma after_append:
  "after pattern target (mk_pm (pre @ [j]) # rest) ms found1 = X \<Longrightarrow>
   (\<And>ms'. findMatches_loop pattern target (mk_pm (pre @ [Suc j]) # rest, ms') = after pattern target rest ms' found2) \<Longrightarrow>
   X = after pattern target rest ms (found1 @ found2)"
  by (auto simp: after_def bump_def incr_back_mk)

lemma loop_frame:
  "length pre + Suc d = length (nodes pattern) \<Longrightarrow> rest = [] \<or> node_mapping (hd rest) \<noteq> [] \<Longrightarrow>
   findMatches_loop pattern target (mk_pm (pre @ [j]) # rest, ms) =
     after pattern target rest ms (block pattern target d pre j)"
proof (induction d arbitrary: pre j rest ms)
  case 0
  show ?case using 0
  proof (induction "length (nodes target) - j" arbitrary: j ms)
    case 0
    then show ?case
      by (simp add: loop_unfold[OF step_pop] block_done after_def)
  next
    case (Suc k)
    then have j: "j < length (nodes target)" by simp
    have IH: "\<And>ms'. findMatches_loop pattern target (mk_pm (pre @ [Suc j]) # rest, ms') =
        after pattern target rest ms' (block pattern target 0 pre (Suc j))"
      using Suc by simp
    show ?case
    proof (cases "frame_ok pattern target pre j")
      case False
      with j Suc.prems show ?thesis
        by (simp add: loop_unfold[OF step_reject] block_step IH)
    next
      case True
      show ?thesis
      proof (cases "edges_in_range pattern")
        case er: True
        have "findMatches_step pattern target (mk_pm (pre @ [j]) # rest, ms) =
          Inr (mk_pm (pre @ [Suc j]) # rest, ms @ [filled pattern target (pre @ [j])])"
          using step_record[OF j _ True] Suc.prems er by simp
        from loop_unfold[OF this] show ?thesis
          using j True er by (simp add: block_step IH after_def)
      next
        case er: False
        have "findMatches_step pattern target (mk_pm (pre @ [j]) # rest, ms) = Inl OutOfRange"
          using step_record[OF j _ True] Suc.prems er by simp
        from loop_unfold_err[OF this] show ?thesis
          using j True er by (simp add: block_step after_def)
      qed
    qed
  qed
next
  case (Suc d)
  note outer = Suc.IH
  show ?case using Suc.prems
  proof (induction "length (nodes target) - j" arbitrary: j ms)
    case 0
    then show ?case
      by (simp add: loop_unfold[OF step_pop] block_done after_def)
  next
    case (Suc k)
    then have j: "j < length (nodes target)" by simp
    have IH: "\<And>ms'. findMatches_loop pattern target (mk_pm (pre @ [Suc j]) # rest, ms') =
        after pattern target rest ms' (block pattern target (Suc d) pre (Suc j))"
      using Suc by simp
    show ?case
    proof (cases "frame_ok pattern target pre j")
      case False
      with j Suc.prems show ?thesis
        by (simp add: loop_unfold[OF step_reject] block_step IH)
    next
      case True
      have "findMatches_step pattern target (mk_pm (pre @ [j]) # rest, ms) =
         Inr (mk_pm ((pre @ [j]) @ [0]) # mk_pm (pre @ [j]) # rest, ms)"
        using step_push[OF j _ True] Suc.prems by simp
      from loop_unfold[OF this]
      have "findMatches_loop pattern target (mk_pm (pre @ [j]) # rest, ms) =
            findMatches_loop pattern target (mk_pm ((pre @ [j]) @ [0]) # mk_pm (pre @ [j]) # rest, ms)" .
      also have "\<dots> = after pattern target (mk_pm (pre @ [j]) # rest) ms (block pattern target d (pre @ [j]) 0)"
        using Suc.prems by (intro outer) (simp_all add: mk_pm_def)
      also have "\<dots> = after pattern target rest ms
          (block pattern target d (pre @ [j]) 0 @ block pattern target (Suc d) pre (Suc j))"
        by (rule after_append[OF refl IH])
      finally show ?thesis
        using j True by (simp add: block_step search_Suc_block del: search.simps)
    qed
  qed
qed

lemma loop_empty: "findMatches_loop pattern target ([], ms) = Some (Inr ms)"
  by (subst findMatches_loop.simps) simp

lemma findMatches_char:
  assumes "nodes pattern \<noteq> []"
  shows "findMatches pattern target =
    (if search pattern target (length (nodes pattern)) [] = [] \<or> edges_in_range pattern
     then Some (Inr (map (filled pattern target) (search pattern target (length (nodes pattern)) [])))
     else Some (Inl OutOfRange))"
proof -
  obtain d where d: "length (nodes pattern) = Suc d"
    using assms by (cases "nodes pattern") auto
  have "findMatches_loop pattern target (mk_pm ([] @ [0]) # [], []) =
      after pattern target [] [] (block pattern target d [] 0)"
    by (rule loop_frame) (simp_all add: d)
  then show ?thesis
    using assms
    by (simp add: findMatches_def mk_pm_def d after_def bump_def loop_empty block_def)
qed

lemma search_mem:
  "x \<in> set (search pattern target d pre) \<longleftrightarrow>
     (\<exists>s. x = pre @ s \<and> length s = d \<and> (\<forall>k<d. s ! k < length (nodes target) \<and>
          frame_ok pattern target (pre @ take k s) (s ! k)))"
proof (induction d arbitrary: pre x)
  case 0
  then show ?case by auto
next
  case (Suc d)
  show ?case
  proof
    assume "x \<in> set (search pattern target (Suc d) pre)"
    then obtain j where j: "j < length (nodes target)" "frame_ok pattern target pre j"
        "x \<in> set (search pattern target d (pre @ [j]))"
      by (auto split: if_splits)
    then obtain s where s: "x = (pre @ [j]) @ s" "length s = d"
        "\<forall>k<d. s ! k < length (nodes target) \<and> frame_ok pattern target ((pre @ [j]) @ take k s) (s ! k)"
      using Suc.IH by blast
    have "\<forall>k<Suc d. (j # s) ! k < length (nodes target) \<and>
        frame_ok pattern target (pre @ take k (j # s)) ((j # s) ! k)"
    proof (intro allI impI)
      fix k assume "k < Suc d"
      then show "(j # s) ! k < length (nodes target) \<and>
        frame_ok pattern target (pre @ take k (j # s)) ((j # s) ! k)"
        using j s by (cases k) auto
    qed
    then show "\<exists>s. x = pre @ s \<and> length s = Suc d \<and> (\<forall>k<Suc d. s ! k < length (nodes target) \<and>
          frame_ok pattern target (pre @ take k s) (s ! k))"
      using s by (intro exI[of _ "j # s"]) auto
  next
    assume "\<exists>s. x = pre @ s \<and> length s = Suc d \<and> (\<forall>k<Suc d. s ! k < length (nodes target) \<and>
          frame_ok pattern target (pre @ take k s) (s ! k))"
    then obtain s where s: "x = pre @ s" "length s = Suc d"
       "\<forall>k<Suc d. s ! k < length (nodes target) \<and> frame_ok pattern target (pre @ take k s) (s ! k)"
      by blast
    then obtain j s' where js: "s = j # s'" by (cases s) auto
    have j: "j < length (nodes target)" "frame_ok pattern target pre j"
      using s(3)[rule_format, of 0] js by auto
    have "\<forall>k<d. s' ! k < length (nodes target) \<and> frame_ok pattern target ((pre @ [j]) @ take k s') (s' ! k)"
    proof (intro allI impI)
      fix k assume "k < d"
      then show "s' ! k < length (nodes target) \<and> frame_ok pattern target ((pre @ [j]) @ take k s') (s' ! k)"
        using s(3)[rule_format, of "Suc k"] js by auto
    qed
    then have "x \<in> set (search pattern target d (pre @ [j]))"
      using Suc.IH[of x "pre @ [j]"] s js by auto
    then show "x \<in> set (search pattern target (Suc d) pre)"
      using j by auto
  qed
qed

lemma block_mem:
  "x \<in> set (block pattern target d pre j) \<longleftrightarrow>
    (\<exists>j'. j \<le> j' \<and> j' < length (nodes target) \<and> frame_ok pattern target pre j' \<and>
           x \<in> set (search pattern target d (pre @ [j'])))"
  by (auto simp: block_def split: if_splits)

lemma lex_less_blocks:
  "x \<in> set (search pattern target d (pre @ [j])) \<Longrightarrow>
   y \<in> set (block pattern target d pre (Suc j)) \<Longrightarrow> lex_less x y"
  by (auto simp: block_mem search_mem lex_less_def lexord_append_leftI)

lemma search_sorted: "sorted_wrt lex_less (search pattern target d pre)"
proof (induction d arbitrary: pre)
  case 0
  then show ?case by simp
next
  case (Suc d)
  have "sorted_wrt lex_less (block pattern target d pre j)" for j
  proof (induction "length (nodes target) - j" arbitrary: j)
    case 0
    then show ?case by (simp add: block_done)
  next
    case (Suc k)
    then have "j < length (nodes target)" by simp
    then show ?case
      using Suc.hyps(1)[of "Suc j"] Suc.hyps(2) \<open>\<And>pre. sorted_wrt lex_less (search pattern target d pre)\<close>
      by (auto simp: block_step sorted_wrt_append lex_less_blocks)
  qed
  then show ?case by (simp add: search_Suc_block del: search.simps)
qed

lemma lex_less_irrefl: "\<not> lex_less x x"
  by (simp add: lex_less_def lexord_irreflexive)

lemma sorted_wrt_lex_distinct: "sorted_wrt lex_less xs \<Longrightarrow> distinct xs"
  by (induction xs) (auto simp: lex_less_irrefl)

lemma edge_fail_Cons:
  "edge_fail (pe # es) target nm i j \<longleftrightarrow> edge_unmet target nm i j pe \<or> edge_fail es target nm i j"
  unfolding edge_unmet_def by (simp add: list_ex_iff) blast

lemma edge_fail_iff:
  "edge_fail es target nm i j \<longleftrightarrow> (\<exists>pe\<in>set es. edge_unmet target nm i j pe)"
  by (induction es) (simp_all add: edge_fail_Cons del: edge_fail.simps(2))

lemma nth_take_snoc: "k < length nm \<Longrightarrow> t \<le> k \<Longrightarrow> (take k nm @ [nm ! k]) ! t = nm ! t"
  by (auto simp: nth_append)

lemma edge_unmet_frame:
  assumes "k < length nm"
  shows "edge_unmet target (take k nm @ [nm ! k]) k (nm ! k) pe \<longleftrightarrow>
    (max (head pe) (tail pe) = k \<and>
       \<not> (\<exists>te\<in>set (edges target). head te = nm ! head pe \<and> tail te = nm ! tail pe))"
proof -
  have a: "(take k nm @ [nm ! k]) ! t = nm ! t" if "t \<le> k" for t
    using assms that by (rule nth_take_snoc)
  have "head pe = k \<and> tail pe \<le> k \<or> head pe < k \<and> tail pe = k \<or> max (head pe) (tail pe) \<noteq> k"
    by arith
  then consider "head pe = k" "tail pe \<le> k" | "head pe < k" "tail pe = k" | "max (head pe) (tail pe) \<noteq> k"
    by blast
  then show ?thesis
  proof cases
    case 1
    then show ?thesis using a[of "tail pe"] by (simp add: edge_unmet_def max_def)
  next
    case 2
    then show ?thesis using a[of "head pe"] by (auto simp add: edge_unmet_def max_def)
  next
    case 3
    then show ?thesis by (auto simp add: edge_unmet_def max_def)
  qed
qed

lemma edge_fail_frame:
  assumes "k < length nm"
  shows "edge_fail es target (take k nm @ [nm ! k]) k (nm ! k) \<longleftrightarrow>
    (\<exists>pe\<in>set es. max (head pe) (tail pe) = k \<and>
       \<not> (\<exists>te\<in>set (edges target). head te = nm ! head pe \<and> tail te = nm ! tail pe))"
  by (simp add: edge_fail_iff edge_unmet_frame[OF assms])

lemma frame_ok_frame:
  assumes "k < length nm"
  shows "frame_ok pattern target (take k nm) (nm ! k) \<longleftrightarrow>
    (node_label (node_attrs (nodes pattern ! k)) = [] \<or>
     node_label (node_attrs (nodes pattern ! k)) = node_label (node_attrs (nodes target ! (nm ! k)))) \<and>
    (\<forall>pe\<in>set (edges pattern). max (head pe) (tail pe) = k \<longrightarrow>
       (\<exists>te\<in>set (edges target). head te = nm ! head pe \<and> tail te = nm ! tail pe))"
  using assms edge_fail_frame[OF assms, of "edges pattern" target]
  by (auto simp: frame_ok_def)

lemma frames_ok_iff:
  assumes len: "length nm = length (nodes pattern)" and er: "edges_in_range pattern"
  shows "(\<forall>k<length nm. frame_ok pattern target (take k nm) (nm ! k)) \<longleftrightarrow>
     label_constraint pattern target nm \<and> edge_constraint pattern target nm"
proof -
  have in_range: "max (head pe) (tail pe) < length nm" if "pe \<in> set (edges pattern)" for pe
    using er that len by (auto simp: edges_in_range_def list_all_iff)
  have "(\<forall>k<length nm. frame_ok pattern target (take k nm) (nm ! k)) \<longleftrightarrow>
    (\<forall>k<length nm. (node_label (node_attrs (nodes pattern ! k)) = [] \<or>
     node_label (node_attrs (nodes pattern ! k)) = node_label (node_attrs (nodes target ! (nm ! k)))) \<and>
    (\<forall>pe\<in>set (edges pattern). max (head pe) (tail pe) = k \<longrightarrow>
       (\<exists>te\<in>set (edges target). head te = nm ! head pe \<and> tail te = nm ! tail pe)))"
    by (simp add: frame_ok_frame)
  also have "\<dots> \<longleftrightarrow> label_constraint pattern target nm \<and> edge_constraint pattern target nm"
    unfolding label_constraint_def edge_constraint_def len[symmetric]
    using in_range by blast
  finally show ?thesis .
qed

lemma search_top_mem:
  "nm \<in> set (search pattern target (length (nodes pattern)) []) \<longleftrightarrow>
     node_assignment pattern target nm \<and>
     (\<forall>k<length nm. frame_ok pattern target (take k nm) (nm ! k))"
  by (auto simp: search_mem node_assignment_def all_set_conv_all_nth)

lemma search_top_valid:
  assumes "edges_in_range pattern"
  shows "nm \<in> set (search pattern target (length (nodes pattern)) []) \<longleftrightarrow>
     node_assignment pattern target nm \<and> label_constraint pattern target nm \<and>
     edge_constraint pattern target nm"
  using frames_ok_iff[OF _ assms, of nm target]
  by (auto simp: search_top_mem node_assignment_def)

lemma node_mapping_filled: "node_mapping (filled pattern target nm) = nm"
  by (simp add: filled_def)

lemma map_node_mapping_filled: "map node_mapping (map (filled pattern target) xs) = xs"
  by (induction xs) (simp_all add: node_mapping_filled)

lemma findMatches_Inr:
  assumes "findMatches pattern target = Some (Inr ms)"
  shows "nodes pattern \<noteq> [] \<and> ms = map (filled pattern target) (search pattern target (length (nodes pattern)) []) \<and>
    (ms \<noteq> [] \<longrightarrow> edges_in_range pattern)"
proof -
  have ne: "nodes pattern \<noteq> []"
    using assms by (auto simp: findMatches_def split: if_splits)
  from findMatches_char[OF ne, of target] assms show ?thesis
    using ne by (auto split: if_splits)
qed

lemma loop_finite:
  "findMatches_loop pattern target s = Some r \<Longrightarrow>
   \<exists>k. (case r of Inl e \<Rightarrow> findMatches_run k pattern target s = Inl e
             | Inr ms \<Rightarrow> findMatches_run k pattern target s = Inr ([], ms))"
proof (induction pattern target s r rule: findMatches_loop.raw_induct[rotated 1, consumes 1, case_names step])
  case (step loop pattern target s r)
  show ?case
  proof (cases "fst s = []")
    case True
    with step(2) have "r = Inr (snd s)" by simp
    with True show ?thesis
      by (intro exI[of _ 0]) (cases s, simp)
  next
    case False
    show ?thesis
    proof (cases "findMatches_step pattern target s")
      case (Inl e)
      with False step(2) have "r = Inl e" by simp
      with Inl False show ?thesis
        by (intro exI[of _ "Suc 0"]) (simp add: bind_err_def)
    next
      case (Inr s')
      with False step(2) have "loop pattern target s' = Some r" by simp
      from step(1)[OF this] obtain k where
        "case r of Inl e \<Rightarrow> findMatches_run k pattern target s' = Inl e
             | Inr ms \<Rightarrow> findMatches_run k pattern target s' = Inr ([], ms)" ..
      with Inr False show ?thesis
        by (intro exI[of _ "Suc k"]) (simp add: bind_err_def split: sum.splits)
    qed
  qed
qed

lemma incr_back_entries:
  "node_mapping pm \<noteq> [] \<Longrightarrow> (\<forall>j\<in>set (node_mapping pm). j \<le> n) \<Longrightarrow> last (node_mapping pm) < n \<Longrightarrow>
   (\<forall>j\<in>set (node_mapping (incr_back pm)). j \<le> n) \<and>
   length (node_mapping (incr_back pm)) = length (node_mapping pm)"
  by (auto simp: incr_back_def dest: in_set_butlastD)

lemma step_stack_ok:
  assumes "findMatches_step pattern target (stack, ms) = Inr (stack', ms')"
    and "stack_ok (length (nodes target)) stack" and "length stack \<le> length (nodes pattern)"
  shows "stack_ok (length (nodes target)) stack' \<and> length stack' \<le> length (nodes pattern)"
proof (cases stack)
  case Nil
  with assms(1) show ?thesis by simp
next
  case (Cons pm rest)
  have ne: "node_mapping pm \<noteq> []" using assms(2) Cons by auto
  have ent: "\<forall>j\<in>set (node_mapping pm). j \<le> length (nodes target)" using assms(2) Cons by simp
  have len: "length (node_mapping pm) = Suc (length rest)" using assms(2) Cons by simp
  have rest: "stack_ok (length (nodes target)) rest"
     "\<forall>parent_pm\<in>set rest. last (node_mapping parent_pm) < length (nodes target)"
    using assms(2) Cons by simp_all
  show ?thesis
  proof (cases "length (nodes target) \<le> last (node_mapping pm)")
    case True
    show ?thesis
    proof (cases rest)
      case Nil
      with True assms(1) Cons ne show ?thesis by (auto simp: Let_def)
    next
      case (Cons parent_pm rest')
      have p: "node_mapping parent_pm \<noteq> []" "stack_ok (length (nodes target)) rest'"
         "\<forall>j\<in>set (node_mapping parent_pm). j \<le> length (nodes target)"
         "last (node_mapping parent_pm) < length (nodes target)"
         "length (node_mapping parent_pm) = Suc (length rest')"
         "\<forall>q\<in>set rest'. last (node_mapping q) < length (nodes target)"
        using rest Cons by auto
      have "stack' = incr_back parent_pm # rest'"
        using True assms(1) \<open>stack = pm # rest\<close> Cons ne p(1) by (auto simp: Let_def)
      then show ?thesis
        using incr_back_entries[OF p(1) p(3) p(4)] p assms(3) \<open>stack = pm # rest\<close> Cons by simp
    qed
  next
    case False
    then have j: "last (node_mapping pm) < length (nodes target)" by simp
    from assms(1) Cons ne False
    consider "stack' = incr_back pm # rest"
      | "stack' = pm\<lparr>node_mapping := node_mapping pm @ [0]\<rparr> # pm # rest"
        "length (node_mapping pm) \<noteq> length (nodes pattern)"
      by (auto simp: Let_def split: if_splits sum.splits)
    then show ?thesis
    proof cases
      case 1
      then show ?thesis
        using incr_back_entries[OF ne ent j] len rest assms(3) Cons by simp
    next
      case 2
      then show ?thesis
        using ent len rest assms(3) Cons j by auto
    qed
  qed
qed

lemma run_stack_ok:
  "findMatches_run k pattern target s = Inr s' \<Longrightarrow>
   stack_ok (length (nodes target)) (fst s) \<Longrightarrow> length (fst s) \<le> length (nodes pattern) \<Longrightarrow>
   stack_ok (length (nodes target)) (fst s') \<and> length (fst s') \<le> length (nodes pattern)"
proof (induction k arbitrary: s)
  case 0
  then show ?case by simp
next
  case (Suc k)
  show ?case
  proof (cases "fst s = []")
    case True
    with Suc.prems show ?thesis by simp
  next
    case False
    with Suc.prems(1) obtain s1 where s1: "findMatches_step pattern target s = Inr s1"
        "findMatches_run k pattern target s1 = Inr s'"
      by (auto simp: bind_err_def split: sum.splits)
    from step_stack_ok[of pattern target "fst s" "snd s" "fst s1" "snd s1"] s1(1) Suc.prems(2,3)
    have "stack_ok (length (nodes target)) (fst s1) \<and> length (fst s1) \<le> length (nodes pattern)"
      by simp
    with Suc.IH[OF s1(2)] show ?thesis by simp
  qed
qed

lemma stack_ok_entries:
  "stack_ok n stack \<Longrightarrow> pm \<in> set stack \<Longrightarrow> j \<in> set (node_mapping pm) \<Longrightarrow> j \<le> n"
  by (induction stack) auto


section \<open>Loops that may fail, and tables\<close>

lemma bind_err_Inl [simp]: "bind_err (Inl e) f = Inl e"
  by (simp add: bind_err_def)

lemma bind_err_Inr [simp]: "bind_err (Inr x) f = f x"
  by (simp add: bind_err_def)

lemma fold_err_append: "fold_err f (xs @ ys) s = bind_err (fold_err f xs s) (fold_err f ys)"
  by (induction xs arbitrary: s) (auto simp: bind_err_def split: sum.splits)

lemma fold_err_snoc: "fold_err f (xs @ [x]) s = bind_err (fold_err f xs s) (f x)"
  by (simp add: fold_err_append bind_err_def split: sum.splits)

lemma fold_err_upt_Suc: "fold_err f [0..<Suc k] s = bind_err (fold_err f [0..<k] s) (f k)"
  by (simp add: fold_err_snoc)

lemma fold_err_range:
  assumes "\<And>k. k < n \<Longrightarrow> f k (S k) = (if ok k then Inr (S (Suc k)) else Inl err)"
  shows "fold_err f [0..<n] (S 0) = (if \<forall>k<n. ok k then Inr (S n) else Inl err)"
  using assms
proof (induction n)
  case 0
  then show ?case by simp
next
  case (Suc n)
  then have "fold_err f [0..<n] (S 0) = (if \<forall>k<n. ok k then Inr (S n) else Inl err)"
    by simp
  then show ?case
    using Suc.prems[of n] by (auto simp: fold_err_snoc less_Suc_eq)
qed

lemma write_table_Nil [simp]: "write_table start [] table = table"
  by (simp add: write_table_def)

lemma write_table_snoc:
  "write_table start (src @ [i]) table = (write_table start src table)[i := start + length src]"
  by (simp add: write_table_def enumerate_append_eq)

lemma write_table_append:
  "write_table start (xs @ ys) table = write_table (start + length xs) ys (write_table start xs table)"
  by (simp add: write_table_def enumerate_append_eq)

lemma length_write_table [simp]: "length (write_table start src table) = length table"
  by (induction src arbitrary: table rule: rev_induct) (simp_all add: write_table_snoc)

lemma write_table_other:
  "i \<notin> set src \<Longrightarrow> write_table start src table ! i = table ! i"
  by (induction src rule: rev_induct) (simp_all add: write_table_snoc)

lemma write_table_points:
  "i \<in> set src \<Longrightarrow> i < length table \<Longrightarrow>
   \<exists>q<length src. write_table start src table ! i = start + q \<and> src ! q = i"
proof (induction src rule: rev_induct)
  case Nil
  then show ?case by simp
next
  case (snoc x xs)
  show ?case
  proof (cases "i = x")
    case True
    with snoc.prems show ?thesis
      by (intro exI[of _ "length xs"]) (simp add: write_table_snoc)
  next
    case False
    with snoc obtain q where "q < length xs" "write_table start xs table ! i = start + q" "xs ! q = i"
      by auto
    with False show ?thesis
      by (intro exI[of _ q]) (simp add: write_table_snoc nth_append)
  qed
qed

lemma fold_err_range_first:
  assumes "\<And>k. k < n \<Longrightarrow> f k (S k) = (if ok k then Inr (S (Suc k)) else Inl (err k))"
  shows "fold_err f [0..<n] (S 0) =
     (if \<forall>k<n. ok k then Inr (S n) else Inl (err (LEAST k. \<not> ok k)))"
  using assms
proof (induction n)
  case 0
  then show ?case by simp
next
  case (Suc n)
  then have IH: "fold_err f [0..<n] (S 0) =
     (if \<forall>k<n. ok k then Inr (S n) else Inl (err (LEAST k. \<not> ok k)))"
    by simp
  have step: "fold_err f [0..<Suc n] (S 0) = bind_err (fold_err f [0..<n] (S 0)) (f n)"
    by (rule fold_err_upt_Suc)
  have body: "f n (S n) = (if ok n then Inr (S (Suc n)) else Inl (err n))"
    by (rule Suc.prems) simp
  show ?case
  proof (cases "\<forall>k<n. ok k")
    case all: True
    then have before: "fold_err f [0..<n] (S 0) = Inr (S n)" using IH by simp
    show ?thesis
    proof (cases "ok n")
      case True
      with all have "\<forall>k<Suc n. ok k" by (simp add: less_Suc_eq)
      then show ?thesis
        unfolding step before using True body by simp
    next
      case False
      have "(LEAST k. \<not> ok k) = n"
        using False all by (intro Least_equality) (auto simp: not_less[symmetric])
      moreover have "\<not> (\<forall>k<Suc n. ok k)" using False by auto
      ultimately show ?thesis
        unfolding step before using False body by simp
    qed
  next
    case False
    then have before: "fold_err f [0..<n] (S 0) = Inl (err (LEAST k. \<not> ok k))" using IH by simp
    from False have "\<not> (\<forall>k<Suc n. ok k)" by (auto simp: less_Suc_eq)
    then show ?thesis
      unfolding step before by simp
  qed
qed


section \<open>The result of createRuleFromGraph in closed form\<close>

lemma members_Suc: "members A (Suc k) = (if k \<in> A then members A k @ [k] else members A k)"
  by (simp add: members_def)

lemma length_members: "length (members A k) = rank A k"
  by (simp add: members_def rank_def)

lemma copy_node_st:
  "copy_node g Ls Rs k (node_state g Ls Rs k) =
     (if k \<in> subgraph_nodes Ls \<or> k \<in> subgraph_nodes Rs
      then Inr (node_state g Ls Rs (Suc k))
      else Inl (RuntimeError (msg_node_in_neither (name (nodes g ! k)))))"
  by (cases "k \<in> subgraph_nodes Ls"; cases "k \<in> subgraph_nodes Rs")
     (simp_all add: copy_node_def node_state_def compile_st_def members_Suc write_table_snoc
      length_members Let_def)

lemma phase_nodes:
  "fold_err (copy_node g Ls Rs) [0..<length (nodes g)]
      \<lparr>rule = empty_rule,
       graph_to_lhs_node = replicate (length (nodes g)) NO_INDEX,
       graph_to_rhs_node = replicate (length (nodes g)) NO_INDEX,
       graph_to_common_node = replicate (length (nodes g)) NO_INDEX,
       lhs_label_to_edge = [],
       rhs_label_to_edge = []\<rparr> =
   (if \<forall>i<length (nodes g). i \<in> subgraph_nodes Ls \<or> i \<in> subgraph_nodes Rs
    then Inr (node_state g Ls Rs (length (nodes g)))
    else Inl (RuntimeError (msg_node_in_neither
           (name (nodes g ! (LEAST i. \<not> (i \<in> subgraph_nodes Ls \<or> i \<in> subgraph_nodes Rs)))))))"
proof -
  have "fold_err (copy_node g Ls Rs) [0..<length (nodes g)] (node_state g Ls Rs 0) =
   (if \<forall>i<length (nodes g). i \<in> subgraph_nodes Ls \<or> i \<in> subgraph_nodes Rs
    then Inr (node_state g Ls Rs (length (nodes g)))
    else Inl (RuntimeError (msg_node_in_neither
           (name (nodes g ! (LEAST i. \<not> (i \<in> subgraph_nodes Ls \<or> i \<in> subgraph_nodes Rs)))))))"
    by (rule fold_err_range_first[where err = "\<lambda>k. RuntimeError (msg_node_in_neither (name (nodes g ! k)))"])
       (rule copy_node_st)
  then show ?thesis
    by (simp add: node_state_def compile_st_def members_def empty_rule_def empty_graph_def empty_mapping_def)
qed

lemma label_entries_Suc:
  "label_entries g A (Suc k) =
     (if k \<in> A \<and> label_of g k \<noteq> [] then label_entries g A k @ [(label_of g k, rank A k)]
      else label_entries g A k)"
  by (simp add: label_entries_def)

lemma side_edges_Suc:
  "side_edges g A table (Suc k) =
     (if k \<in> A then side_edges g A table k @ [translate table (edges g ! k)] else side_edges g A table k)"
  by (simp add: side_edges_def members_Suc)

lemma length_side_edges: "length (side_edges g A table k) = rank A k"
  by (simp add: side_edges_def length_members)

lemma map_of_label_entries:
  "map_of (label_entries g A k) l \<noteq> None \<longleftrightarrow> l \<noteq> [] \<and> (\<exists>i<k. i \<in> A \<and> label_of g i = l)"
  by (auto simp: map_of_eq_None_iff label_entries_def image_iff)

lemma length_lhs_table [simp]: "length (lhs_table g Ls) = length (nodes g)"
  by (simp add: lhs_table_def)

lemma copy_edge_lhs_st:
  "copy_edge_lhs e (compile_st ln le rn re cn kln krn g2l g2r g2c lm rm) =
     (if ends_in (length g2l) e then
        (if edge_label (edge_attrs e) \<noteq> [] \<and> map_of lm (edge_label (edge_attrs e)) \<noteq> None
         then Inl (RuntimeError (msg_label_twice_lhs (edge_label (edge_attrs e))))
         else Inr (compile_st ln (le @ [translate g2l e]) rn re cn kln krn g2l g2r g2c
                     (if edge_label (edge_attrs e) \<noteq> [] then lm @ [(edge_label (edge_attrs e), length le)] else lm)
                     rm))
      else Inl OutOfRange)"
  by (simp add: copy_edge_lhs_def compile_st_def ends_in_def translate_def Let_def)

lemma copy_edge_rhs_st:
  "copy_edge_rhs e (compile_st ln le rn re cn kln krn g2l g2r g2c lm rm) =
     (if ends_in (length g2r) e then
        (if edge_label (edge_attrs e) \<noteq> [] \<and> map_of rm (edge_label (edge_attrs e)) \<noteq> None
         then Inl (RuntimeError (msg_label_twice_rhs (edge_label (edge_attrs e))))
         else Inr (compile_st ln le rn (re @ [translate g2r e]) cn kln krn g2l g2r g2c lm
                     (if edge_label (edge_attrs e) \<noteq> [] then rm @ [(edge_label (edge_attrs e), length re)] else rm)))
      else Inl OutOfRange)"
  by (simp add: copy_edge_rhs_def compile_st_def ends_in_def translate_def Let_def)

lemma dup_before_map_of:
  "dup_before g A k \<longleftrightarrow> k \<in> A \<and> label_of g k \<noteq> [] \<and> map_of (label_entries g A k) (label_of g k) \<noteq> None"
  unfolding dup_before_def map_of_label_entries by blast

lemma copy_edge_st:
  "copy_edge g Ls Rs k (edge_state g Ls Rs k) =
     (if edge_ok g Ls Rs k then Inr (edge_state g Ls Rs (Suc k)) else Inl (edge_err g Ls Rs k))"
proof -
  have l: "edge_label (edge_attrs (edges g ! k)) = label_of g k" by (simp add: label_of_def)
  show ?thesis
    by (cases "k \<in> subgraph_edges Ls"; cases "k \<in> subgraph_edges Rs";
        cases "ends_in (length (nodes g)) (edges g ! k)"; cases "label_of g k = []")
       (simp_all add: copy_edge_def edge_state_def copy_edge_lhs_st copy_edge_rhs_st l Let_def
          edge_ok_def edge_err_def dup_before_map_of label_entries_Suc side_edges_Suc length_side_edges)
qed

lemma phase_edges:
  "fold_err (copy_edge g Ls Rs) [0..<length (edges g)] (node_state g Ls Rs (length (nodes g))) =
   (if \<forall>k<length (edges g). edge_ok g Ls Rs k
    then Inr (edge_state g Ls Rs (length (edges g)))
    else Inl (edge_err g Ls Rs (LEAST k. \<not> edge_ok g Ls Rs k)))"
proof -
  have "fold_err (copy_edge g Ls Rs) [0..<length (edges g)] (edge_state g Ls Rs 0) =
   (if \<forall>k<length (edges g). edge_ok g Ls Rs k
    then Inr (edge_state g Ls Rs (length (edges g)))
    else Inl (edge_err g Ls Rs (LEAST k. \<not> edge_ok g Ls Rs k)))"
    by (rule fold_err_range_first) (rule copy_edge_st)
  moreover have "edge_state g Ls Rs 0 = node_state g Ls Rs (length (nodes g))"
    by (simp add: edge_state_def node_state_def side_edges_def label_entries_def members_def lhs_table_def)
  ultimately show ?thesis by simp
qed

lemma fold_add_common_edge:
  "fold (add_common_edge rm) es r =
     r\<lparr>common := (common r)\<lparr>edges := edges (common r) @ map (\<lambda>(l, ml, mr). common_edge l) (shared_labels rm es)\<rparr>,
       common_to_lhs := (common_to_lhs r)
         \<lparr>edge_mapping := edge_mapping (common_to_lhs r) @ map (\<lambda>(l, ml, mr). [ml]) (shared_labels rm es)\<rparr>,
       common_to_rhs := (common_to_rhs r)
         \<lparr>edge_mapping := edge_mapping (common_to_rhs r) @ map (\<lambda>(l, ml, mr). [mr]) (shared_labels rm es)\<rparr>\<rparr>"
proof (induction es arbitrary: r)
  case Nil
  then show ?case by simp
next
  case (Cons e es)
  obtain l ml where e: "e = (l, ml)" by (cases e)
  show ?case
    by (cases "map_of rm l")
       (simp_all add: e Cons.IH, simp_all add: add_common_edge_def common_edge_def)
qed

lemma createRuleFromGraph_missing:
  assumes "find (\<lambda>s. subgraph_name s = ''L'') (subgraphs g) = None \<or>
           find (\<lambda>s. subgraph_name s = ''R'') (subgraphs g) = None"
  shows "createRuleFromGraph ord g = Inl (RuntimeError msg_missing_subgraphs)"
  using assms by (auto simp: createRuleFromGraph_def split: option.splits)

lemma createRuleFromGraph_closed:
  assumes "find (\<lambda>s. subgraph_name s = ''L'') (subgraphs g) = Some Ls"
      and "find (\<lambda>s. subgraph_name s = ''R'') (subgraphs g) = Some Rs"
  shows "createRuleFromGraph ord g =
     (if \<forall>i<length (nodes g). i \<in> subgraph_nodes Ls \<or> i \<in> subgraph_nodes Rs
      then (if \<forall>k<length (edges g). edge_ok g Ls Rs k
            then Inr (compiled_rule ord g Ls Rs)
            else Inl (edge_err g Ls Rs (LEAST k. \<not> edge_ok g Ls Rs k)))
      else Inl (RuntimeError (msg_node_in_neither
             (name (nodes g ! (LEAST i. \<not> (i \<in> subgraph_nodes Ls \<or> i \<in> subgraph_nodes Rs)))))))"
proof -
  have r: "rule (edge_state g Ls Rs k) =
     \<lparr>lhs = \<lparr>nodes = map (\<lambda>i. nodes g ! i) (members (subgraph_nodes Ls) (length (nodes g))),
                  edges = side_edges g (subgraph_edges Ls) (lhs_table g Ls) k,
                  subgraphs = []\<rparr>,
          rhs = \<lparr>nodes = map (\<lambda>i. nodes g ! i) (members (subgraph_nodes Rs) (length (nodes g))),
                  edges = side_edges g (subgraph_edges Rs) (lhs_table g Rs) k,
                  subgraphs = []\<rparr>,
          common = \<lparr>nodes = map (\<lambda>i. nodes g ! i)
                               (members (subgraph_nodes Ls \<inter> subgraph_nodes Rs) (length (nodes g))),
                     edges = [],
                     subgraphs = []\<rparr>,
          common_to_lhs = \<lparr>node_mapping = map (rank (subgraph_nodes Ls))
                               (members (subgraph_nodes Ls \<inter> subgraph_nodes Rs) (length (nodes g))),
                            edge_mapping = []\<rparr>,
          common_to_rhs = \<lparr>node_mapping = map (rank (subgraph_nodes Rs))
                               (members (subgraph_nodes Ls \<inter> subgraph_nodes Rs) (length (nodes g))),
                            edge_mapping = []\<rparr>\<rparr>" for k
    by (simp add: edge_state_def compile_st_def)
  have lm: "lhs_label_to_edge (edge_state g Ls Rs k) = label_entries g (subgraph_edges Ls) k"
    and rm: "rhs_label_to_edge (edge_state g Ls Rs k) = label_entries g (subgraph_edges Rs) k" for k
    by (simp_all add: edge_state_def compile_st_def)
  show ?thesis
    unfolding createRuleFromGraph_def assms
    by (simp add: phase_nodes phase_edges fold_add_common_edge r lm rm compiled_rule_def Let_def
          del: de_Morgan_disj not_all not_ex)
qed

lemma least_bad:
  fixes n :: nat
  assumes "\<exists>k<n. \<not> ok k"
  shows "(LEAST k. \<not> ok k) < n \<and> \<not> ok (LEAST k. \<not> ok k)"
proof -
  from assms obtain k where k: "k < n" "\<not> ok k" by blast
  have "\<not> ok (LEAST k. \<not> ok k)" using LeastI[of "\<lambda>k. \<not> ok k" k] k(2) by simp
  moreover have "(LEAST k. \<not> ok k) \<le> k" using Least_le[of "\<lambda>k. \<not> ok k" k] k(2) by simp
  ultimately show ?thesis using k(1) by simp
qed

lemma edge_err_cases:
  assumes "ends_in (length (nodes g)) (edges g ! k)" and "\<not> edge_ok g Ls Rs k"
  shows "(dup_before g (subgraph_edges Ls) k \<and>
            edge_err g Ls Rs k = RuntimeError (msg_label_twice_lhs (label_of g k))) \<or>
         (dup_before g (subgraph_edges Rs) k \<and>
            edge_err g Ls Rs k = RuntimeError (msg_label_twice_rhs (label_of g k))) \<or>
         (k \<in> subgraph_edges Ls \<and> k \<in> subgraph_edges Rs \<and>
            edge_err g Ls Rs k = RuntimeError msg_edge_in_both) \<or>
         (k \<notin> subgraph_edges Ls \<and> k \<notin> subgraph_edges Rs \<and>
            edge_err g Ls Rs k = RuntimeError msg_edge_in_neither)"
  using assms by (auto simp: edge_ok_def edge_err_def)

lemma edges_ok_iff:
  assumes "edges_in_range g"
  shows "(\<forall>k<length (edges g). edge_ok g Ls Rs k) \<longleftrightarrow>
     \<not> ((\<exists>k<length (edges g). k \<notin> subgraph_edges Ls \<and> k \<notin> subgraph_edges Rs) \<or>
        (\<exists>k<length (edges g). k \<in> subgraph_edges Ls \<and> k \<in> subgraph_edges Rs) \<or>
        label_reused g (subgraph_edges Ls) \<or> label_reused g (subgraph_edges Rs))"
proof -
  have e: "ends_in (length (nodes g)) (edges g ! k)" if "k < length (edges g)" for k
    using assms that by (simp add: edges_in_range_def list_all_length ends_in_def)
  have d: "label_reused g A \<longleftrightarrow> (\<exists>k<length (edges g). dup_before g A k)" for A
    unfolding label_reused_def dup_before_def by blast
  show ?thesis
    unfolding d edge_ok_def using e by blast
qed

lemma rank_less: "i \<in> A \<Longrightarrow> i < n \<Longrightarrow> rank A i < rank A n"
proof -
  assume a: "i \<in> A" "i < n"
  then have "[0..<n] = [0..<i] @ i # [Suc i..<n]"
    by (metis le_add_diff_inverse less_imp_le_nat upt_add_eq_append upt_conv_Cons zero_le add_0)
  then show ?thesis using a by (simp add: rank_def)
qed

lemma distinct_members: "distinct (members A n)"
  by (simp add: members_def)

lemma set_members: "set (members A n) = {i. i < n \<and> i \<in> A}"
  by (auto simp: members_def)

lemma distinct_rank_members:
  assumes "B \<subseteq> A"
  shows "distinct (map (rank A) (members B n))"
proof -
  have "inj_on (rank A) (set (members B n))"
  proof (rule inj_onI)
    fix i j assume ij: "i \<in> set (members B n)" "j \<in> set (members B n)" "rank A i = rank A j"
    then have "i \<in> A" "j \<in> A" using assms by (auto simp: set_members)
    then show "i = j"
      using rank_less[of i A j] rank_less[of j A i] ij(3) by (cases i j rule: linorder_cases) auto
  qed
  then show ?thesis by (simp add: distinct_map distinct_members)
qed

lemma shared_labels_mem:
  "(l, ml, mr) \<in> set (shared_labels rm es) \<Longrightarrow> (l, ml) \<in> set es \<and> map_of rm l = Some mr"
  by (induction rm es rule: shared_labels.induct) (auto split: option.splits)

lemma label_entries_mem:
  "(l, x) \<in> set (label_entries g A k) \<Longrightarrow> \<exists>i<k. i \<in> A \<and> x = rank A i \<and> l = label_of g i"
  by (auto simp: label_entries_def)

lemma map_fst_shared_labels:
  "map fst (shared_labels rm es) = filter (\<lambda>l. l \<in> fst ` set rm) (map fst es)"
proof (induction rm es rule: shared_labels.induct)
  case (1 rm)
  then show ?case by simp
next
  case (2 rm l ml es)
  show ?case
  proof (cases "map_of rm l")
    case None
    then have "l \<notin> fst ` set rm" by (simp add: map_of_eq_None_iff)
    with None 2(1) show ?thesis by simp
  next
    case (Some mr)
    then have "l \<in> fst ` set rm" by (metis map_of_eq_None_iff option.distinct(1))
    with Some 2(2) show ?thesis by simp
  qed
qed

lemma createRuleFromGraph_Inr:
  assumes "createRuleFromGraph ord g = Inr r"
  shows "\<exists>Ls Rs. lhs_subgraph_of g = Some Ls \<and> rhs_subgraph_of g = Some Rs \<and>
           r = compiled_rule ord g Ls Rs"
proof (cases "lhs_subgraph_of g = None \<or> rhs_subgraph_of g = None")
  case True
  then have "createRuleFromGraph ord g = Inl (RuntimeError msg_missing_subgraphs)"
    by (intro createRuleFromGraph_missing) (simp add: lhs_subgraph_of_def rhs_subgraph_of_def)
  with assms show ?thesis by simp
next
  case False
  then obtain Ls Rs where LR: "lhs_subgraph_of g = Some Ls" "rhs_subgraph_of g = Some Rs" by auto
  from createRuleFromGraph_closed[OF LR[unfolded lhs_subgraph_of_def rhs_subgraph_of_def], of ord] assms
  have "r = compiled_rule ord g Ls Rs" by (auto split: if_splits)
  with LR show ?thesis by blast
qed

lemma compiled_rule_wf:
  assumes "\<forall>xs. set (ord xs) \<subseteq> set xs"
  shows "rule_wf (compiled_rule ord g Ls Rs)"
proof -
  let ?sh = "shared_labels (label_entries g (subgraph_edges Rs) (length (edges g)))
                 (ord (label_entries g (subgraph_edges Ls) (length (edges g))))"
  have a: "\<forall>l\<in>set (map (rank (subgraph_nodes Ls))
             (members (subgraph_nodes Ls \<inter> subgraph_nodes Rs) (length (nodes g)))).
           l < rank (subgraph_nodes Ls) (length (nodes g))"
    by (auto simp: set_members rank_less)
  have b: "\<forall>x\<in>set (map (\<lambda>(l, ml, mr). [ml]) ?sh).
            \<exists>l<rank (subgraph_edges Ls) (length (edges g)). x = [l]"
  proof
    fix x assume "x \<in> set (map (\<lambda>(l, ml, mr). [ml]) ?sh)"
    then obtain l ml mr where e: "(l, ml, mr) \<in> set ?sh" "x = [ml]" by auto
    from shared_labels_mem[OF e(1)] assms
    have "(l, ml) \<in> set (label_entries g (subgraph_edges Ls) (length (edges g)))" by blast
    from label_entries_mem[OF this] have "ml < rank (subgraph_edges Ls) (length (edges g))"
      by (auto simp: rank_less)
    with e(2) show "\<exists>l<rank (subgraph_edges Ls) (length (edges g)). x = [l]" by blast
  qed
  show ?thesis
    using a b distinct_rank_members[of "subgraph_nodes Ls \<inter> subgraph_nodes Rs" "subgraph_nodes Ls" "length (nodes g)"]
    by (simp add: rule_wf_def compiled_rule_def Let_def length_members length_side_edges)
qed

lemma createRuleFromGraph_wf:
  assumes "createRuleFromGraph ord g = Inr r" and "\<forall>xs. set (ord xs) \<subseteq> set xs"
  shows "rule_wf r"
  using createRuleFromGraph_Inr[OF assms(1)] compiled_rule_wf[OF assms(2)] by auto


section \<open>The result of applyRule in closed form\<close>

lemma filter_upt_Suc:
  "filter P [0..<Suc k] = (if P k then filter P [0..<k] @ [k] else filter P [0..<k])"
  by simp

lemma copy_target_node_st:
  "copy_target_node target m k
     (apply_st (map (\<lambda>i. nodes target ! i) (filter (\<lambda>i. i \<notin> set (node_mapping m)) [0..<k])) []
        (write_table 0 (filter (\<lambda>i. i \<notin> set (node_mapping m)) [0..<k]) tbl) r2r) =
   Inr (apply_st (map (\<lambda>i. nodes target ! i) (filter (\<lambda>i. i \<notin> set (node_mapping m)) [0..<Suc k])) []
        (write_table 0 (filter (\<lambda>i. i \<notin> set (node_mapping m)) [0..<Suc k]) tbl) r2r)"
  by (simp add: copy_target_node_def apply_st_def write_table_snoc)

lemma phase_target_nodes:
  "fold_err (copy_target_node target m) [0..<length (nodes target)]
     \<lparr>result = empty_graph, target_to_result_node = tbl, rhs_to_result_node = r2r\<rparr> =
   Inr (apply_st (map (\<lambda>i. nodes target ! i) (context_nodes target m)) []
          (write_table 0 (context_nodes target m) tbl) r2r)"
proof -
  let ?S = "\<lambda>k. apply_st (map (\<lambda>i. nodes target ! i) (filter (\<lambda>i. i \<notin> set (node_mapping m)) [0..<k])) []
        (write_table 0 (filter (\<lambda>i. i \<notin> set (node_mapping m)) [0..<k]) tbl) r2r"
  have "fold_err (copy_target_node target m) [0..<length (nodes target)] (?S 0) =
      (if \<forall>k<length (nodes target). True then Inr (?S (length (nodes target))) else Inl OutOfRange)"
    by (rule fold_err_range) (simp only: copy_target_node_st if_True)
  then show ?thesis
    by (simp add: apply_st_def empty_graph_def context_nodes_def)
qed

lemma copy_common_node_st:
  "length tbl = length (nodes target) \<Longrightarrow>
   copy_common_node r target m k
     (apply_st (map (\<lambda>i. nodes target ! i) (ctx @ map (kept_node r m) [0..<k])) []
        (write_table 0 (ctx @ map (kept_node r m) [0..<k]) tbl) r2r) =
   (if kept_ok r target m k
    then Inr (apply_st (map (\<lambda>i. nodes target ! i) (ctx @ map (kept_node r m) [0..<Suc k])) []
        (write_table 0 (ctx @ map (kept_node r m) [0..<Suc k]) tbl) r2r)
    else Inl OutOfRange)"
  by (simp add: copy_common_node_def apply_st_def kept_ok_def kept_node_def Let_def
      write_table_snoc[of 0 "ctx @ map f [0..<k]" for f, simplified])

lemma phase_common_nodes:
  assumes "length tbl = length (nodes target)"
  shows "fold_err (copy_common_node r target m) [0..<length (nodes (common r))]
     (apply_st (map (\<lambda>i. nodes target ! i) (context_nodes target m)) []
          (write_table 0 (context_nodes target m) tbl) r2r) =
   (if \<forall>k<length (nodes (common r)). kept_ok r target m k
    then Inr (apply_st (map (\<lambda>i. nodes target ! i) (node_sources r target m)) []
          (write_table 0 (node_sources r target m) tbl) r2r)
    else Inl OutOfRange)"
proof -
  let ?S = "\<lambda>k. apply_st (map (\<lambda>i. nodes target ! i) (context_nodes target m @ map (kept_node r m) [0..<k])) []
        (write_table 0 (context_nodes target m @ map (kept_node r m) [0..<k]) tbl) r2r"
  have "fold_err (copy_common_node r target m) [0..<length (nodes (common r))] (?S 0) =
      (if \<forall>k<length (nodes (common r)). kept_ok r target m k
       then Inr (?S (length (nodes (common r)))) else Inl OutOfRange)"
    by (rule fold_err_range) (rule copy_common_node_st[OF assms])
  then show ?thesis
    by (simp add: node_sources_def)
qed

lemma add_rhs_node_st:
  "add_rhs_node r k
     (apply_st (ns @ map (\<lambda>i. nodes (rhs r) ! i) (filter (\<lambda>i. i \<notin> set (node_mapping (common_to_rhs r))) [0..<k])) []
        t2r (write_table (length ns) (filter (\<lambda>i. i \<notin> set (node_mapping (common_to_rhs r))) [0..<k]) tbl)) =
   Inr (apply_st (ns @ map (\<lambda>i. nodes (rhs r) ! i) (filter (\<lambda>i. i \<notin> set (node_mapping (common_to_rhs r))) [0..<Suc k])) []
        t2r (write_table (length ns) (filter (\<lambda>i. i \<notin> set (node_mapping (common_to_rhs r))) [0..<Suc k]) tbl))"
  by (simp add: add_rhs_node_def apply_st_def write_table_snoc)

lemma phase_rhs_nodes:
  "fold_err (add_rhs_node r) [0..<length (nodes (rhs r))] (apply_st ns [] t2r tbl) =
   Inr (apply_st (ns @ map (\<lambda>i. nodes (rhs r) ! i) (new_rhs_nodes r)) [] t2r
          (write_table (length ns) (new_rhs_nodes r) tbl))"
proof -
  let ?S = "\<lambda>k. apply_st (ns @ map (\<lambda>i. nodes (rhs r) ! i) (filter (\<lambda>i. i \<notin> set (node_mapping (common_to_rhs r))) [0..<k])) []
        t2r (write_table (length ns) (filter (\<lambda>i. i \<notin> set (node_mapping (common_to_rhs r))) [0..<k]) tbl)"
  have "fold_err (add_rhs_node r) [0..<length (nodes (rhs r))] (?S 0) =
      (if \<forall>k<length (nodes (rhs r)). True then Inr (?S (length (nodes (rhs r)))) else Inl OutOfRange)"
    by (rule fold_err_range) (simp only: add_rhs_node_st if_True)
  then show ?thesis
    by (simp add: new_rhs_nodes_def)
qed

lemma push_edge_st:
  "push_edge table e (apply_st ns es t2r r2r) =
   (if ends_in (length table) e then Inr (apply_st ns (es @ [translate table e]) t2r r2r)
    else Inl OutOfRange)"
  by (simp add: push_edge_def apply_st_def ends_in_def translate_def)

lemma copy_target_edge_st:
  "copy_target_edge target m k
     (apply_st ns (map (\<lambda>i. translate t2r (edges target ! i))
                      (filter (\<lambda>i. i \<notin> set (concat (edge_mapping m))) [0..<k])) t2r r2r) =
   (if k \<in> set (concat (edge_mapping m)) \<or> ends_in (length t2r) (edges target ! k)
    then Inr (apply_st ns (map (\<lambda>i. translate t2r (edges target ! i))
                      (filter (\<lambda>i. i \<notin> set (concat (edge_mapping m))) [0..<Suc k])) t2r r2r)
    else Inl OutOfRange)"
  by (simp add: copy_target_edge_def push_edge_st) (simp add: apply_st_def)

lemma phase_target_edges:
  "fold_err (copy_target_edge target m) [0..<length (edges target)] (apply_st ns [] t2r r2r) =
   (if \<forall>i\<in>set (context_edges target m). ends_in (length t2r) (edges target ! i)
    then Inr (apply_st ns (map (\<lambda>i. translate t2r (edges target ! i)) (context_edges target m)) t2r r2r)
    else Inl OutOfRange)"
proof -
  let ?S = "\<lambda>k. apply_st ns (map (\<lambda>i. translate t2r (edges target ! i))
                      (filter (\<lambda>i. i \<notin> set (concat (edge_mapping m))) [0..<k])) t2r r2r"
  have "fold_err (copy_target_edge target m) [0..<length (edges target)] (?S 0) =
      (if \<forall>k<length (edges target). k \<in> set (concat (edge_mapping m)) \<or> ends_in (length t2r) (edges target ! k)
       then Inr (?S (length (edges target))) else Inl OutOfRange)"
    by (rule fold_err_range) (rule copy_target_edge_st)
  moreover have "(\<forall>k<length (edges target). k \<in> set (concat (edge_mapping m)) \<or> ends_in (length t2r) (edges target ! k))
     \<longleftrightarrow> (\<forall>i\<in>set (context_edges target m). ends_in (length t2r) (edges target ! i))"
    by (auto simp: context_edges_def)
  ultimately show ?thesis
    by (simp add: context_edges_def)
qed

lemma inner_common_edges:
  "fold_err (\<lambda>target_edge st'.
                if target_edge < length (edges target)
                then push_edge (target_to_result_node st') (edges target ! target_edge) st'
                else Inl OutOfRange) tes (apply_st ns es t2r r2r) =
   (if \<forall>te\<in>set tes. te < length (edges target) \<and> ends_in (length t2r) (edges target ! te)
    then Inr (apply_st ns (es @ map (\<lambda>i. translate t2r (edges target ! i)) tes) t2r r2r)
    else Inl OutOfRange)"
proof (induction tes arbitrary: es)
  case Nil
  then show ?case by simp
next
  case (Cons te tes)
  have t: "target_to_result_node (apply_st ns es t2r r2r) = t2r" by (simp add: apply_st_def)
  show ?case
    by (simp add: t push_edge_st Cons.IH)
qed

lemma copy_common_edge_st:
  "copy_common_edge r target m k
     (apply_st ns (es @ concat (map (\<lambda>k. map (\<lambda>i. translate t2r (edges target ! i)) (kept_edges r m k)) [0..<k])) t2r r2r) =
   (if k < length (edge_mapping (common_to_lhs r)) \<and> edge_mapping (common_to_lhs r) ! k \<noteq> [] \<and>
      edge_mapping (common_to_lhs r) ! k ! 0 < length (edge_mapping m) \<and>
      (\<forall>te\<in>set (kept_edges r m k).
          te < length (edges target) \<and> ends_in (length t2r) (edges target ! te))
    then Inr (apply_st ns (es @ concat (map (\<lambda>k. map (\<lambda>i. translate t2r (edges target ! i)) (kept_edges r m k)) [0..<Suc k])) t2r r2r)
    else Inl OutOfRange)"
  by (simp add: copy_common_edge_def Let_def inner_common_edges kept_edges_def)

lemma phase_common_edges:
  assumes "length t2r = length (nodes target)"
  shows "fold_err (copy_common_edge r target m) [0..<length (edges (common r))] (apply_st ns es t2r r2r) =
   (if \<forall>k<length (edges (common r)). kept_edges_ok r target m k
    then Inr (apply_st ns (es @ concat (map (\<lambda>k. map (\<lambda>i. translate t2r (edges target ! i)) (kept_edges r m k))
                 [0..<length (edges (common r))])) t2r r2r)
    else Inl OutOfRange)"
proof -
  let ?S = "\<lambda>k. apply_st ns (es @ concat (map (\<lambda>k. map (\<lambda>i. translate t2r (edges target ! i)) (kept_edges r m k)) [0..<k])) t2r r2r"
  have "fold_err (copy_common_edge r target m) [0..<length (edges (common r))] (?S 0) =
      (if \<forall>k<length (edges (common r)). kept_edges_ok r target m k
       then Inr (?S (length (edges (common r)))) else Inl OutOfRange)"
    by (rule fold_err_range) (simp only: copy_common_edge_st kept_edges_ok_def assms)
  then show ?thesis by simp
qed

lemma add_rhs_edge_st:
  "add_rhs_edge r k
     (apply_st ns (es @ map (\<lambda>i. translate r2r (edges (rhs r) ! i))
                      (filter (\<lambda>i. i \<notin> set (concat (edge_mapping (common_to_rhs r)))) [0..<k])) t2r r2r) =
   (if k \<in> set (concat (edge_mapping (common_to_rhs r))) \<or> ends_in (length r2r) (edges (rhs r) ! k)
    then Inr (apply_st ns (es @ map (\<lambda>i. translate r2r (edges (rhs r) ! i))
                      (filter (\<lambda>i. i \<notin> set (concat (edge_mapping (common_to_rhs r)))) [0..<Suc k])) t2r r2r)
    else Inl OutOfRange)"
  by (simp add: add_rhs_edge_def push_edge_st) (simp add: apply_st_def)

lemma phase_rhs_edges:
  "fold_err (add_rhs_edge r) [0..<length (edges (rhs r))] (apply_st ns es t2r r2r) =
   (if \<forall>i\<in>set (new_rhs_edges r). ends_in (length r2r) (edges (rhs r) ! i)
    then Inr (apply_st ns (es @ map (\<lambda>i. translate r2r (edges (rhs r) ! i)) (new_rhs_edges r)) t2r r2r)
    else Inl OutOfRange)"
proof -
  let ?S = "\<lambda>k. apply_st ns (es @ map (\<lambda>i. translate r2r (edges (rhs r) ! i))
                      (filter (\<lambda>i. i \<notin> set (concat (edge_mapping (common_to_rhs r)))) [0..<k])) t2r r2r"
  have "fold_err (add_rhs_edge r) [0..<length (edges (rhs r))] (?S 0) =
      (if \<forall>k<length (edges (rhs r)). k \<in> set (concat (edge_mapping (common_to_rhs r))) \<or>
            ends_in (length r2r) (edges (rhs r) ! k)
       then Inr (?S (length (edges (rhs r)))) else Inl OutOfRange)"
    by (rule fold_err_range) (rule add_rhs_edge_st)
  moreover have "(\<forall>k<length (edges (rhs r)). k \<in> set (concat (edge_mapping (common_to_rhs r))) \<or>
            ends_in (length r2r) (edges (rhs r) ! k))
     \<longleftrightarrow> (\<forall>i\<in>set (new_rhs_edges r). ends_in (length r2r) (edges (rhs r) ! i))"
    by (auto simp: new_rhs_edges_def)
  ultimately show ?thesis
    by (simp add: new_rhs_edges_def)
qed

theorem applyRule_closed:
  "applyRule r target m =
     (if apply_in_range r target m
      then Inr \<lparr>nodes = apply_nodes r target m, edges = apply_edges r target m, subgraphs = []\<rparr>
      else Inl OutOfRange)"
  unfolding applyRule_def
  by (simp add: phase_target_nodes phase_common_nodes phase_rhs_nodes phase_target_edges
      phase_common_edges phase_rhs_edges apply_in_range_def apply_nodes_def apply_edges_def
      target_table_def rhs_table_def)
     (auto simp: apply_st_def)

lemma findMatches_match:
  assumes "findMatches pattern target = Some (Inr ms)" and "m \<in> set ms"
  shows "node_assignment pattern target (node_mapping m) \<and> edges_in_range pattern \<and>
         m = filled pattern target (node_mapping m)"
proof -
  from findMatches_Inr[OF assms(1)] assms(2)
  obtain nm where nm: "nm \<in> set (search pattern target (length (nodes pattern)) [])"
      "m = filled pattern target nm" and er: "edges_in_range pattern"
    by auto
  then show ?thesis by (simp add: search_top_mem node_mapping_filled)
qed

lemma applyRule_Inr:
  assumes "applyRule r target m = Inr G"
  shows "apply_in_range r target m \<and> nodes G = apply_nodes r target m \<and>
         edges G = apply_edges r target m"
  using assms unfolding applyRule_closed by (auto split: if_splits)

lemma length_node_sources:
  "length (node_sources r target m) = length (context_nodes target m) + length (nodes (common r))"
  by (simp add: node_sources_def)

lemma length_context_nodes:
  assumes "distinct (node_mapping m)" and "\<forall>j\<in>set (node_mapping m). j < length (nodes target)"
  shows "length (context_nodes target m) = length (nodes target) - length (node_mapping m)"
proof -
  have "length (context_nodes target m) = card ({i. i \<notin> set (node_mapping m)} \<inter> set [0..<length (nodes target)])"
    unfolding context_nodes_def by (rule distinct_length_filter) simp
  also have "{i. i \<notin> set (node_mapping m)} \<inter> set [0..<length (nodes target)] =
      {..<length (nodes target)} - set (node_mapping m)"
    by auto
  also have "card \<dots> = card {..<length (nodes target)} - card (set (node_mapping m))"
    using assms(2) by (intro card_Diff_subset) auto
  finally show ?thesis using assms(1) by (simp add: distinct_card)
qed

lemma card_deleted_image:
  assumes "distinct (node_mapping m)" and "length (node_mapping m) = length (nodes (lhs r))"
      and "distinct (node_mapping (common_to_lhs r))"
      and "\<forall>l\<in>set (node_mapping (common_to_lhs r)). l < length (nodes (lhs r))"
  shows "card (deleted_image r m) = length (nodes (lhs r)) - length (node_mapping (common_to_lhs r))"
proof -
  let ?D = "{l. l < length (nodes (lhs r)) \<and> l \<notin> set (node_mapping (common_to_lhs r))}"
  have "inj_on (\<lambda>l. node_mapping m ! l) {..<length (node_mapping m)}"
    using assms(1) by (auto simp: inj_on_def nth_eq_iff_index_eq)
  then have "inj_on (\<lambda>l. node_mapping m ! l) ?D"
    by (rule inj_on_subset) (auto simp: assms(2))
  moreover have "deleted_image r m = (\<lambda>l. node_mapping m ! l) ` ?D"
    unfolding deleted_image_def by auto
  ultimately have "card (deleted_image r m) = card ?D"
    by (simp add: card_image)
  also have "?D = {..<length (nodes (lhs r))} - set (node_mapping (common_to_lhs r))" by auto
  also have "card \<dots> = card {..<length (nodes (lhs r))} - card (set (node_mapping (common_to_lhs r)))"
    using assms(4) by (intro card_Diff_subset) auto
  finally show ?thesis using assms(3) by (simp add: distinct_card)
qed

lemma distinct_bounded_length:
  assumes "distinct xs" and "\<forall>x\<in>set xs. x < (n::nat)"
  shows "length xs \<le> n"
proof -
  have "card (set xs) \<le> card {..<n}" using assms(2) by (intro card_mono) auto
  then show ?thesis using assms(1) by (simp add: distinct_card)
qed

lemma survives_source:
  "survives r m v \<Longrightarrow> v < length (nodes target) \<Longrightarrow> v \<in> set (node_sources r target m)"
  by (auto simp: survives_def node_sources_def context_nodes_def)

lemma target_table_valid:
  assumes "v \<in> set (node_sources r target m)" and "v < length (nodes target)"
  shows "target_table r target m ! v < length (node_sources r target m)"
  using write_table_points[OF assms(1), of "replicate (length (nodes target)) NO_INDEX" 0] assms(2)
  by (auto simp: target_table_def)

lemma rhs_table_valid:
  assumes "v \<in> set (new_rhs_nodes r)"
  shows "rhs_table r target m ! v < length (node_sources r target m) + length (new_rhs_nodes r)"
proof -
  have "v < length (nodes (rhs r))" using assms by (simp add: new_rhs_nodes_def)
  with write_table_points[OF assms, of "replicate (length (nodes (rhs r))) NO_INDEX"
      "length (node_sources r target m)"]
  show ?thesis by (auto simp: rhs_table_def)
qed

lemma length_apply_nodes:
  "length (apply_nodes r target m) = length (node_sources r target m) + length (new_rhs_nodes r)"
  by (simp add: apply_nodes_def)

lemma edges_in_range_nth:
  "edges_in_range g \<Longrightarrow> i < length (edges g) \<Longrightarrow> ends_in (length (nodes g)) (edges g ! i)"
  by (simp add: edges_in_range_def list_all_length ends_in_def)

lemma filled_edge_mapping:
  "l < length (edges pattern) \<Longrightarrow> te \<in> set (edge_mapping (filled pattern target nm) ! l) \<Longrightarrow>
   te < length (edges target)"
  by (simp add: filled_def)

lemma length_filled_edge_mapping:
  "length (edge_mapping (filled pattern target nm)) = length (edges pattern)"
  by (simp add: filled_def)

lemma matched_rule_in_range:
  assumes wf: "rule_wf r"
      and tr: "edges_in_range target"
      and fm: "findMatches (lhs r) target = Some (Inr ms)" and m: "m \<in> set ms"
      and fresh: "\<forall>i\<in>set (new_rhs_edges r). ends_in (length (nodes (rhs r))) (edges (rhs r) ! i)"
  shows "apply_in_range r target m"
proof -
  from findMatches_match[OF fm m]
  have nm: "length (node_mapping m) = length (nodes (lhs r))"
      "\<forall>j\<in>set (node_mapping m). j < length (nodes target)"
    and filled: "m = filled (lhs r) target (node_mapping m)"
    by (simp_all add: node_assignment_def)
  have em_len: "length (edge_mapping m) = length (edges (lhs r))"
    using length_filled_edge_mapping[of "lhs r" target "node_mapping m"] filled by simp
  have em_mem: "te < length (edges target)" if "l < length (edges (lhs r))" "te \<in> set (edge_mapping m ! l)" for l te
    using filled_edge_mapping[of l "lhs r" te target "node_mapping m"] that filled by simp
  have a: "kept_ok r target m k" if "k < length (nodes (common r))" for k
  proof -
    have "node_mapping (common_to_lhs r) ! k < length (nodes (lhs r))"
      using wf that by (simp add: rule_wf_def)
    then show ?thesis
      using wf that nm by (simp add: kept_ok_def kept_node_def rule_wf_def)
  qed
  have b: "ends_in (length (nodes target)) (edges target ! i)" if "i \<in> set (context_edges target m)" for i
    using that edges_in_range_nth[OF tr, of i] by (simp add: context_edges_def)
  have c: "kept_edges_ok r target m k" if "k < length (edges (common r))" for k
  proof -
    from wf that have k: "k < length (edge_mapping (common_to_lhs r))" by (simp add: rule_wf_def)
    then have "edge_mapping (common_to_lhs r) ! k \<in> set (edge_mapping (common_to_lhs r))" by simp
    with wf obtain l where l: "l < length (edges (lhs r))" "edge_mapping (common_to_lhs r) ! k = [l]"
      by (auto simp: rule_wf_def)
    have "te < length (edges target) \<and> ends_in (length (nodes target)) (edges target ! te)"
      if "te \<in> set (kept_edges r m k)" for te
    proof -
      from that l have "te \<in> set (edge_mapping m ! l)" by (simp add: kept_edges_def)
      from em_mem[OF l(1) this] show ?thesis using edges_in_range_nth[OF tr] by simp
    qed
    then show ?thesis
      using k l em_len by (simp add: kept_edges_ok_def)
  qed
  show ?thesis
    using a b c fresh by (simp add: apply_in_range_def)
qed

lemma identity_rule_wf:
  assumes "identity_rule r"
  shows "rule_wf r"
proof -
  have d: "distinct (node_mapping (common_to_lhs r))"
    using assms mset_eq_imp_distinct_iff[of "node_mapping (common_to_lhs r)" "[0..<length (nodes (lhs r))]"]
    by (simp add: identity_rule_def del: mset_upt)
  have s: "set (node_mapping (common_to_lhs r)) = set [0..<length (nodes (lhs r))]"
    using assms by (intro mset_eq_setD) (simp add: identity_rule_def del: mset_upt)
  have e: "\<exists>l<length (edges (lhs r)). x = [l]" if "x \<in> set (edge_mapping (common_to_lhs r))" for x
  proof -
    from assms that have "length x = 1" by (simp add: identity_rule_def)
    then obtain l where l: "x = [l]" by (cases x) auto
    have "set (map hd (edge_mapping (common_to_lhs r))) = set [0..<length (edges (lhs r))]"
      using assms by (intro mset_eq_setD) (simp add: identity_rule_def del: mset_upt)
    moreover have "hd x \<in> set (map hd (edge_mapping (common_to_lhs r)))" using that by simp
    ultimately have "l < length (edges (lhs r))" using l by auto
    with l show ?thesis by blast
  qed
  show ?thesis
    using assms d s e by (auto simp: rule_wf_def identity_rule_def)
qed

lemma filter_not_mem_Nil: "set xs \<subseteq> A \<Longrightarrow> filter (\<lambda>i. i \<notin> A) xs = []"
  by (induction xs) auto

lemma identity_rule_nothing_new:
  assumes "identity_rule r"
  shows "new_rhs_nodes r = []" and "new_rhs_edges r = []"
proof -
  have "set [0..<length (nodes (rhs r))] \<subseteq> set (node_mapping (common_to_rhs r))"
    using assms by (simp only: identity_rule_def)
  then show "new_rhs_nodes r = []"
    unfolding new_rhs_nodes_def by (rule filter_not_mem_Nil)
  have "set [0..<length (edges (rhs r))] \<subseteq> set (concat (edge_mapping (common_to_rhs r)))"
    using assms by (simp only: identity_rule_def)
  then show "new_rhs_edges r = []"
    unfolding new_rhs_edges_def by (rule filter_not_mem_Nil)
qed

lemma map_comp_nth: "map (\<lambda>k. f (xs ! k)) [0..<length xs] = map f xs"
proof -
  have "map f xs = map f (map (\<lambda>k. xs ! k) [0..<length xs])" by (simp only: map_nth)
  then show ?thesis by (simp add: comp_def)
qed

lemma mset_concat_map_cong:
  assumes "mset xs = mset ys"
  shows "mset (concat (map g xs)) = mset (concat (map g ys))"
proof -
  have "mset (concat (map g zs)) = sum_mset (image_mset (\<lambda>z. mset (g z)) (mset zs))" for zs
    by (induction zs) simp_all
  then show ?thesis using assms by simp
qed

lemma mset_bounded_distinct:
  assumes "distinct xs" and "\<forall>x\<in>set xs. x < (n::nat)"
  shows "mset xs + mset (filter (\<lambda>i. i \<notin> set xs) [0..<n]) = mset [0..<n]"
proof -
  have "set (filter (\<lambda>i. i \<in> set xs) [0..<n]) = set xs" using assms(2) by auto
  then have "mset xs = mset (filter (\<lambda>i. i \<in> set xs) [0..<n])"
    using assms(1) by (subst set_eq_iff_mset_eq_distinct[symmetric]) simp_all
  then show ?thesis
    using multiset_partition[of "mset [0..<n]" "\<lambda>i. i \<in> set xs"] by (simp del: mset_upt)
qed

lemma distinct_concat_map_key:
  assumes "distinct (map key ls)"
      and "\<And>l. l \<in> set ls \<Longrightarrow> distinct (g l)"
      and "\<And>l l'. l \<in> set ls \<Longrightarrow> l' \<in> set ls \<Longrightarrow> key l \<noteq> key l' \<Longrightarrow> set (g l) \<inter> set (g l') = {}"
  shows "distinct (concat (map g ls))"
  using assms
proof (induction ls)
  case Nil
  then show ?case by simp
next
  case (Cons a ls)
  have "set (g a) \<inter> set (g l) = {}" if "l \<in> set ls" for l
  proof -
    have "key a \<noteq> key l" using Cons.prems(1) that by auto
    then show ?thesis using Cons.prems(3)[of a l] that by simp
  qed
  moreover have "distinct (concat (map g ls))"
    using Cons.prems by (intro Cons.IH) auto
  ultimately show ?case using Cons.prems(2)[of a] by auto
qed

lemma distinct_filled_edges:
  assumes "distinct nm" and "edges_in_range pattern" and "length nm = length (nodes pattern)"
      and "distinct (map (\<lambda>e. (head e, tail e)) (edges pattern))"
  shows "distinct (concat (edge_mapping (filled pattern target nm)))"
proof -
  let ?g = "\<lambda>pe. filter (\<lambda>n. head (edges target ! n) = nm ! head pe \<and>
                           tail (edges target ! n) = nm ! tail pe) [0..<length (edges target)]"
  have "distinct (concat (map ?g (edges pattern)))"
  proof (rule distinct_concat_map_key[where key = "\<lambda>e. (head e, tail e)"])
    show "distinct (map (\<lambda>e. (head e, tail e)) (edges pattern))" by (rule assms(4))
    show "distinct (?g l)" for l by simp
    show "set (?g l) \<inter> set (?g l') = {}"
      if "l \<in> set (edges pattern)" "l' \<in> set (edges pattern)" "(head l, tail l) \<noteq> (head l', tail l')" for l l'
    proof -
      have r: "head l < length nm" "tail l < length nm" "head l' < length nm" "tail l' < length nm"
        using that(1,2) assms(2,3) by (auto simp: edges_in_range_def list_all_iff)
      have "nm ! head l \<noteq> nm ! head l' \<or> nm ! tail l \<noteq> nm ! tail l'"
        using that(3) r assms(1) by (auto simp: nth_eq_iff_index_eq)
      then show ?thesis by auto
    qed
  qed
  then show ?thesis by (simp add: filled_def)
qed

section \<open>Properties of findMatches\<close>

lemmas findMatches_eval =
  findMatches_def findMatches_loop.simps incr_back_def fill_edge_matches_def Let_def upt_rec

lemma ex_findMatches: "findMatches ex_pattern ex_target = Some (Inr ex_matches)"
  by (simp add: findMatches_eval ex_pattern_def ex_target_def ex_matches_def mk_node_def mk_edge_def)

text \<open>
  Claim C1 (match soundness). For every match returned by \<open>findMatches pattern target\<close> and
  every pattern edge \<open>e\<close> from \<open>a\<close> to \<open>b\<close>, the target has at least one edge from the image of
  \<open>a\<close> to the image of \<open>b\<close> (tail to tail, head to head), and the entry of the edge mapping
  for \<open>e\<close> is the list of the indices of all such target edges, parallel edges included.
\<close>

theorem findMatches_sound:
  assumes "findMatches pattern target = Some (Inr ms)" and "m \<in> set ms"
      and "e < length (edges pattern)"
  shows "(\<exists>n<length (edges target).
            head (edges target ! n) = node_mapping m ! head (edges pattern ! e) \<and>
            tail (edges target ! n) = node_mapping m ! tail (edges pattern ! e)) \<and>
         edge_mapping m ! e =
           filter (\<lambda>n. head (edges target ! n) = node_mapping m ! head (edges pattern ! e) \<and>
                        tail (edges target ! n) = node_mapping m ! tail (edges pattern ! e))
                  [0..<length (edges target)]"
proof -
  from findMatches_Inr[OF assms(1)] assms(2)
  obtain nm where nm: "nm \<in> set (search pattern target (length (nodes pattern)) [])"
      "m = filled pattern target nm" and er: "edges_in_range pattern"
    by auto
  have "edge_constraint pattern target nm"
    using nm(1) search_top_valid[OF er] by blast
  then obtain te where "te \<in> set (edges target)" "head te = nm ! head (edges pattern ! e)"
      "tail te = nm ! tail (edges pattern ! e)"
    using nth_mem[OF assms(3)] by (auto simp: edge_constraint_def)
  then have "\<exists>n<length (edges target).
            head (edges target ! n) = nm ! head (edges pattern ! e) \<and>
            tail (edges target ! n) = nm ! tail (edges pattern ! e)"
    by (auto simp: in_set_conv_nth)
  then show ?thesis
    using nm(2) assms(3) by (simp add: filled_def)
qed

theorem findMatches_sound_witness:
  "findMatches ex_pattern ex_target = Some (Inr ex_matches) \<and>
   ex_matches ! 1 \<in> set ex_matches \<and> 0 < length (edges ex_pattern) \<and>
   (\<exists>n<length (edges ex_target).
       head (edges ex_target ! n) = node_mapping (ex_matches ! 1) ! head (edges ex_pattern ! 0) \<and>
       tail (edges ex_target ! n) = node_mapping (ex_matches ! 1) ! tail (edges ex_pattern ! 0)) \<and>
   edge_mapping (ex_matches ! 1) ! 0 = [1, 2]"
proof -
  have a: "ex_matches ! 1 \<in> set ex_matches" and b: "0 < length (edges ex_pattern)"
    by (simp_all add: ex_matches_def ex_pattern_def)
  have c: "edge_mapping (ex_matches ! 1) ! 0 = [1, 2]"
    by (simp add: ex_matches_def)
  from findMatches_sound[OF ex_findMatches a b] ex_findMatches a b c show ?thesis
    by simp
qed

text \<open>
  Claim C2 (match completeness and ordering). For a pattern with at least one node whose
  edges end at pattern nodes, \<open>findMatches\<close> returns exactly one match for every assignment
  of target nodes to the pattern nodes, injective or not, that satisfies the label
  constraint and the edge constraint, and no other; the matches come in the lexicographic
  order of their node mappings, smaller target indices first.
\<close>

theorem findMatches_complete_ordered:
  assumes "nodes pattern \<noteq> []" and "edges_in_range pattern"
  shows "\<exists>ms. findMatches pattern target = Some (Inr ms) \<and>
     set (map node_mapping ms) =
       {nm. node_assignment pattern target nm \<and> label_constraint pattern target nm \<and>
            edge_constraint pattern target nm} \<and>
     distinct (map node_mapping ms) \<and>
     sorted_wrt lex_less (map node_mapping ms)"
proof -
  let ?found = "search pattern target (length (nodes pattern)) []"
  have "findMatches pattern target = Some (Inr (map (filled pattern target) ?found))"
    using assms by (simp add: findMatches_char)
  moreover have "set ?found = {nm. node_assignment pattern target nm \<and> label_constraint pattern target nm \<and>
            edge_constraint pattern target nm}"
    using search_top_valid[OF assms(2)] by blast
  moreover have "sorted_wrt lex_less ?found" by (rule search_sorted)
  moreover then have "distinct ?found" by (rule sorted_wrt_lex_distinct)
  ultimately show ?thesis
    by (intro exI[of _ "map (filled pattern target) ?found"])
       (simp only: map_node_mapping_filled simp_thms)
qed

theorem findMatches_complete_ordered_witness:
  "nodes ex_pattern \<noteq> [] \<and> edges_in_range ex_pattern \<and>
   set (map node_mapping ex_matches) =
       {nm. node_assignment ex_pattern ex_target nm \<and> label_constraint ex_pattern ex_target nm \<and>
            edge_constraint ex_pattern ex_target nm} \<and>
   distinct (map node_mapping ex_matches) \<and>
   sorted_wrt lex_less (map node_mapping ex_matches)"
proof -
  have a: "nodes ex_pattern \<noteq> []" and b: "edges_in_range ex_pattern"
    by (simp_all add: ex_pattern_def edges_in_range_def mk_edge_def)
  from findMatches_complete_ordered[OF a b, of ex_target] a b show ?thesis
    by (simp add: ex_findMatches)
qed

text \<open>
  Claim C8 (matcher termination). For every pattern with at least one node and every
  target, \<open>findMatches\<close> returns: the loop reaches an empty stack (or a failure) after
  finitely many iterations. In every state of the loop the stack holds at most as many
  frames as the pattern has nodes, and no entry of a frame exceeds the number of target
  nodes, so a candidate runs through at most that many values plus one.
\<close>

theorem findMatches_terminates:
  assumes "nodes pattern \<noteq> []"
  shows "(\<exists>r. findMatches pattern target = Some r) \<and>
    (\<exists>k. case findMatches_run k pattern target ([\<lparr>node_mapping = [0], edge_mapping = []\<rparr>], []) of
            Inl e \<Rightarrow> True | Inr s \<Rightarrow> fst s = []) \<and>
    (\<forall>k s. findMatches_run k pattern target ([\<lparr>node_mapping = [0], edge_mapping = []\<rparr>], []) = Inr s \<longrightarrow>
        length (fst s) \<le> length (nodes pattern) \<and>
        (\<forall>pm\<in>set (fst s). \<forall>j\<in>set (node_mapping pm). j \<le> length (nodes target)))"
proof (intro conjI allI impI)
  let ?init = "([\<lparr>node_mapping = [0], edge_mapping = []\<rparr>], []) :: GraphMapping list \<times> GraphMapping list"
  have "\<exists>r. findMatches pattern target = Some r"
    by (simp add: findMatches_char[OF assms, of target])
  then obtain r where r: "findMatches pattern target = Some r" ..
  then show "\<exists>r. findMatches pattern target = Some r" ..
  from r assms have "findMatches_loop pattern target ?init = Some r"
    by (simp add: findMatches_def Suc_le_eq)
  from loop_finite[OF this] obtain k where
    "case r of Inl e \<Rightarrow> findMatches_run k pattern target ?init = Inl e
             | Inr ms \<Rightarrow> findMatches_run k pattern target ?init = Inr ([], ms)" ..
  then show "\<exists>k. case findMatches_run k pattern target ?init of Inl e \<Rightarrow> True | Inr s \<Rightarrow> fst s = []"
    by (intro exI[of _ k]) (auto split: sum.splits)
next
  fix k s
  let ?init = "([\<lparr>node_mapping = [0], edge_mapping = []\<rparr>], []) :: GraphMapping list \<times> GraphMapping list"
  assume run: "findMatches_run k pattern target ?init = Inr s"
  have "stack_ok (length (nodes target)) (fst s) \<and> length (fst s) \<le> length (nodes pattern)"
    using run_stack_ok[OF run] assms by (cases "nodes pattern") simp_all
  then show "length (fst s) \<le> length (nodes pattern)"
    and "\<forall>pm\<in>set (fst s). \<forall>j\<in>set (node_mapping pm). j \<le> length (nodes target)"
    using stack_ok_entries by blast+
qed

theorem findMatches_terminates_witness:
  "nodes ex_pattern \<noteq> [] \<and> (\<exists>r. findMatches ex_pattern ex_target = Some r)"
proof -
  have a: "nodes ex_pattern \<noteq> []" by (simp add: ex_pattern_def)
  from findMatches_terminates[OF a, of ex_target] a show ?thesis by blast
qed

text \<open>
  Claim C9 (shape of a match). Every mapping returned by \<open>findMatches pattern target\<close> has
  one node entry per pattern node, each a node index of the target, and one edge entry per
  pattern edge.
\<close>

theorem findMatches_shape:
  assumes "findMatches pattern target = Some (Inr ms)" and "m \<in> set ms"
  shows "length (node_mapping m) = length (nodes pattern) \<and>
         (\<forall>j\<in>set (node_mapping m). j < length (nodes target)) \<and>
         length (edge_mapping m) = length (edges pattern)"
proof -
  from findMatches_Inr[OF assms(1)] assms(2)
  obtain nm where nm: "nm \<in> set (search pattern target (length (nodes pattern)) [])"
      "m = filled pattern target nm"
    by auto
  then have "node_assignment pattern target nm" by (simp add: search_top_mem)
  then show ?thesis using nm(2) by (simp add: filled_def node_assignment_def)
qed

theorem findMatches_shape_witness:
  "findMatches ex_pattern ex_target = Some (Inr ex_matches) \<and> ex_matches ! 2 \<in> set ex_matches \<and>
   length (node_mapping (ex_matches ! 2)) = length (nodes ex_pattern) \<and>
   list_all (\<lambda>j. j < length (nodes ex_target)) (node_mapping (ex_matches ! 2)) \<and>
   length (edge_mapping (ex_matches ! 2)) = length (edges ex_pattern)"
proof -
  have a: "ex_matches ! 2 \<in> set ex_matches" by (simp add: ex_matches_def)
  from findMatches_shape[OF ex_findMatches a] ex_findMatches a show ?thesis
    by (simp add: list_all_iff)
qed

end
